theory Spec2Isabelle
  imports Complex_Main "HOL-Library.Word" "HOL-Library.Sublist"
begin

section \<open>Data of the detector\<close>

text \<open>
  The embedding follows \<^verbatim>\<open>detection/detector.cpp\<close>. C++ \<^verbatim>\<open>double\<close> values are
  real numbers, and every arithmetic operation the detector performs on them is rounded as
  binary64 arithmetic rounds it (\<open>dbl\<close> below). \<^verbatim>\<open>int\<close> values are mathematical
  integers (signed overflow is undefined in C++, and every integer the detector computes is a
  threshold in 0..100, a counter below 101 or a screen coordinate).
\<close>

text \<open>\<^verbatim>\<open>cv::Rect\<close> and \<^verbatim>\<open>cv::Size\<close>.\<close>

record Rect =
  rx :: int
  ry :: int
  rwidth :: int
  rheight :: int

record Size =
  swidth :: int
  sheight :: int

text \<open>\<^verbatim>\<open>ScalableRoi\<close>: one rectangle carried in the full-size and in the scaled space.\<close>

record ScalableRoi =
  fullSize :: Rect
  scaled :: Rect

text \<open>
  A colour \<^verbatim>\<open>cv::Mat\<close>: rows of pixels, three 8-bit channels per pixel. Gray images are
  only handed to collaborators, so their type \<open>'g\<close> stays abstract.
\<close>

type_synonym pixel = "8 word \<times> 8 word \<times> 8 word"
type_synonym Mat3 = "pixel list list"

record 'g DetectionImage =
  fullSizeColor :: Mat3
  scaledGray :: 'g
  scaledSize :: Size

record 'g ScreenImage = "'g DetectionImage" +
  fullSizeRoi :: Rect
  croppedFullSizeColor :: Mat3
  croppedScaledGray :: 'g

text \<open>
  \<^verbatim>\<open>MatchingResults\<close>: the current candidate (\<open>roi\<close>, \<open>maxVal\<close>) and the score matrix
  \<open>results\<close>, of an abstract type \<open>'s\<close>.
\<close>

record 's MatchingResults =
  roi :: ScalableRoi
  maxVal :: real
  results :: 's

text \<open>The fields of the Java result object that \<^verbatim>\<open>DetectionResult\<close> writes to.\<close>

record DetectionOutcome =
  isDetected :: bool
  centerX :: int
  centerY :: int
  confidence :: real

text \<open>
  Every call the detector makes to a collaborator with an effect is recorded in a trace, in
  the order of the calls.
\<close>

datatype 'b event =
    ProcessBitmap 'b
  | MatchTemplate
  | LocateNextMinMax
  | GetUTF8Text Mat3
  | SetResults bool int int real
  | ClearResults

text \<open>
  The members of \<^verbatim>\<open>Detector\<close>. \<open>conditionBitmap\<close> is what the unqualified name
  \<^verbatim>\<open>conditionBitmap\<close> denotes in the scope of the class where no parameter has that name
  (line 77).
\<close>

record ('b, 'g, 's) Detector =
  scaleRatio :: real
  screenImage :: "'g ScreenImage"
  conditionImage :: "'g DetectionImage"
  detectionRoi :: ScalableRoi
  matchingResults :: "'s MatchingResults"
  detectionResult :: DetectionOutcome
  conditionBitmap :: 'b
  trace :: "'b event list"

text \<open>
  The classes \<^verbatim>\<open>ScreenImage\<close>, \<^verbatim>\<open>DetectionImage\<close>, \<^verbatim>\<open>ScalableRoi\<close> and
  \<^verbatim>\<open>MatchingResults\<close>, the correlation engine, the OCR engine and \<^verbatim>\<open>cv::mean\<close> of
  OpenCV are not part of \<^verbatim>\<open>detector.cpp\<close>: the operations the detector calls on them are
  parameters of the model. \<open>getUTF8Text\<close> stands for the conversion to a \<^verbatim>\<open>Pix\<close>,
  \<^verbatim>\<open>SetImage\<close> and \<^verbatim>\<open>GetUTF8Text\<close>. \<open>mean\<close> returns a \<^verbatim>\<open>cv::Scalar\<close>, whose
  component \<^verbatim>\<open>val[i]\<close> is the value of the function at \<open>i\<close>.
\<close>

type_synonym Scalar = "nat \<Rightarrow> real"

record ('b, 'g, 's) collaborators =
  processBitmap :: "'b \<Rightarrow> real \<Rightarrow> 'g DetectionImage"
  setFullSize :: "Rect \<Rightarrow> real \<Rightarrow> ScalableRoi"
  isFullSizeContains :: "'g ScreenImage \<Rightarrow> Rect \<Rightarrow> bool"
  isScaledContains :: "'g ScreenImage \<Rightarrow> Rect \<Rightarrow> bool"
  setCropping :: "'g ScreenImage \<Rightarrow> ScalableRoi \<Rightarrow> 'g ScreenImage"
  isCroppedScaledContains :: "'g ScreenImage \<Rightarrow> Size \<Rightarrow> bool"
  initResults :: "'s MatchingResults \<Rightarrow> 'g \<Rightarrow> 'g \<Rightarrow> 's MatchingResults"
  matchTemplate :: "'g \<Rightarrow> 'g \<Rightarrow> 's"
  locateNextMinMax :: "'s MatchingResults \<Rightarrow> 'g \<Rightarrow> real \<Rightarrow> 's MatchingResults"
  fullSizeCenterX :: "ScalableRoi \<Rightarrow> int"
  fullSizeCenterY :: "ScalableRoi \<Rightarrow> int"
  getUTF8Text :: "Mat3 \<Rightarrow> string"
  mean :: "Mat3 \<Rightarrow> Scalar"

section \<open>Double arithmetic\<close>

text \<open>
  The integer nearest to a real number, the even one of the two when it lies halfway; and
  the binade of a positive real number \<open>x\<close>, the integer \<open>e\<close> with
  \<open>2 powi e \<le> x < 2 powi (e + 1)\<close>, found by halving a number that is at least 2 and by
  doubling one that is below 1.
\<close>

definition nearestEven :: "real \<Rightarrow> int" where
  "nearestEven x =
     (let f = \<lfloor>x\<rfloor>; r = x - of_int f
      in if r < 1 / 2 then f else if 1 / 2 < r then f + 1 else if even f then f else f + 1)"

function binadeUp :: "real \<Rightarrow> int" where
  "binadeUp x = (if x < 2 then 0 else binadeUp (x / 2) + 1)"
  by auto
termination
proof (relation "measure (\<lambda>x. nat \<lceil>x\<rceil>)")
  show "wf (measure (\<lambda>x. nat \<lceil>x\<rceil>))" by simp
next
  fix x :: real
  assume large: "\<not> x < 2"
  then have "\<lceil>x / 2\<rceil> < \<lceil>x\<rceil>" by linarith
  moreover have "0 < \<lceil>x\<rceil>" using large by linarith
  ultimately show "(x / 2, x) \<in> measure (\<lambda>x. nat \<lceil>x\<rceil>)" by simp
qed

function binadeDown :: "real \<Rightarrow> int" where
  "binadeDown x = (if x \<le> 0 \<or> 1 \<le> x then 0 else binadeDown (2 * x) - 1)"
  by auto
termination
proof (relation "measure (\<lambda>x. nat \<lceil>1 / x\<rceil>)")
  show "wf (measure (\<lambda>x. nat \<lceil>1 / x\<rceil>))" by simp
next
  fix x :: real
  assume "\<not> (x \<le> 0 \<or> 1 \<le> x)"
  then have x: "0 < x" "x < 1" by simp_all
  then have inv: "1 < 1 / x" by simp
  have halves: "\<lceil>y / 2\<rceil> < \<lceil>y\<rceil>" if "1 < y" for y :: real
  proof (cases "2 \<le> y")
    case True
    then show ?thesis by linarith
  next
    case False
    then have "\<lceil>y / 2\<rceil> \<le> 1" by (simp add: ceiling_le_iff)
    moreover from that have "1 < \<lceil>y\<rceil>" by (simp add: less_ceiling_iff)
    ultimately show ?thesis by linarith
  qed
  have "1 / (2 * x) = (1 / x) / 2" by simp
  with halves [OF inv] have "\<lceil>1 / (2 * x)\<rceil> < \<lceil>1 / x\<rceil>" by (simp only:)
  moreover have "0 < \<lceil>1 / x\<rceil>" using inv by linarith
  ultimately show "(2 * x, x) \<in> measure (\<lambda>x. nat \<lceil>1 / x\<rceil>)" by simp
qed

declare binadeUp.simps [simp del]
declare binadeDown.simps [simp del]

definition binade :: "real \<Rightarrow> int" where
  "binade x = (if 1 \<le> x then binadeUp x else binadeDown x)"

text \<open>
  The result of a binary64 operation whose exact result is \<open>x\<close>: the nearest number with
  a significand of 53 bits, ties to even. The exponent range of binary64 is not modelled; the
  values the detector computes, which come from 8-bit channels and thresholds, are 0 or lie
  far inside it. \<open>unitRoundoff\<close> is the largest relative error of one operation.
\<close>

definition dbl :: "real \<Rightarrow> real" where
  "dbl x =
     (if x = 0 then 0
      else let q = 2 powi (binade \<bar>x\<bar> - 52)
           in sgn x * of_int (nearestEven (\<bar>x\<bar> / q)) * q)"

definition unitRoundoff :: real where
  "unitRoundoff = 1 / 2 ^ 53"

section \<open>The colour distance\<close>

text \<open>
  \<^verbatim>\<open>Detector::getColorDiff\<close>, lines 221 to 230. The loop runs over the channels 0, 1, 2;
  the subtraction, the additions of \<^verbatim>\<open>diff +=\<close>, the multiplication and the division are
  each rounded. \<^verbatim>\<open>255 * 3\<close> is the integer 765, converted without rounding.
\<close>

definition getColorDiff :: "('b, 'g, 's) collaborators \<Rightarrow> Mat3 \<Rightarrow> Mat3 \<Rightarrow> real" where
  "getColorDiff C img condition =
     (let imageColorMeans = mean C img;
          conditionColorMeans = mean C condition;
          diff = fold (\<lambda>i diff. dbl (diff + \<bar>dbl (imageColorMeans i - conditionColorMeans i)\<bar>))
                   [0 ..< 3] 0
      in dbl (dbl (diff * 100) / (255 * 3)))"

text \<open>
  \<^verbatim>\<open>Detector::isResultAboveThreshold\<close>, lines 217 to 219. The floor is the rounded
  quotient of two integers.
\<close>

definition isResultAboveThreshold :: "'s MatchingResults \<Rightarrow> int \<Rightarrow> bool" where
  "isResultAboveThreshold res threshold \<longleftrightarrow>
     maxVal res > dbl (real_of_int (100 - threshold) / 100)"

section \<open>Writing the outcome\<close>

text \<open>
  Modelled from the spec: \<^verbatim>\<open>DetectionResult::setResults\<close> and
  \<^verbatim>\<open>DetectionResult::clearResults\<close> are not in \<^verbatim>\<open>detector.cpp\<close>. The first stores the
  four values it is given, the second stores the canonical not-found value (found = false,
  coordinates and confidence zeroed).
\<close>

definition notFound :: DetectionOutcome where
  "notFound = \<lparr>isDetected = False, centerX = 0, centerY = 0, confidence = 0\<rparr>"

definition setResults ::
  "('b, 'g, 's) Detector \<Rightarrow> bool \<Rightarrow> int \<Rightarrow> int \<Rightarrow> real \<Rightarrow> ('b, 'g, 's) Detector" where
  "setResults d f cx cy v =
     d\<lparr>detectionResult := \<lparr>isDetected = f, centerX = cx, centerY = cy, confidence = v\<rparr>,
       trace := trace d @ [SetResults f cx cy v]\<rparr>"

definition clearResults :: "('b, 'g, 's) Detector \<Rightarrow> ('b, 'g, 's) Detector" where
  "clearResults d = d\<lparr>detectionResult := notFound, trace := trace d @ [ClearResults]\<rparr>"

section \<open>Searching the candidates\<close>

text \<open>
  \<^verbatim>\<open>std::string::find\<close>: the position of the first occurrence of \<open>t\<close> in \<open>s\<close>,
  \<open>None\<close> for \<^verbatim>\<open>npos\<close>.
\<close>

fun string_find :: "string \<Rightarrow> string \<Rightarrow> nat option" where
  "string_find [] t = (if t = [] then Some 0 else None)"
| "string_find (c # s) t =
     (if prefix t (c # s) then Some 0 else map_option Suc (string_find s t))"

text \<open>
  How one pass through the body of a \<^verbatim>\<open>while (true)\<close> ends: with \<^verbatim>\<open>continue\<close> (or
  by reaching the end of the body), with \<^verbatim>\<open>break\<close> and the value of \<^verbatim>\<open>isFound\<close>, or
  with \<^verbatim>\<open>return\<close>.
\<close>

datatype verdict = Continue | Break bool | Return

text \<open>
  Lines 117 to 133: what the visual loop does with the candidate \<open>m\<close> that
  \<^verbatim>\<open>locateNextMinMax\<close> has just extracted.
\<close>

definition visual_body ::
  "('b, 'g, 's) collaborators \<Rightarrow> 'g ScreenImage \<Rightarrow> 'g DetectionImage \<Rightarrow> int \<Rightarrow>
   's MatchingResults \<Rightarrow> verdict" where
  "visual_body C si ci threshold m =
     (if \<not> isScaledContains C si (scaled (roi m)) then Continue
      else if \<not> isResultAboveThreshold m threshold then Break False
      else if getColorDiff C (croppedFullSizeColor si) (fullSizeColor ci) < real_of_int threshold
      then Break True
      else Continue)"

text \<open>
  Lines 113 to 134. The loop has no bound of its own, so it is a partial function: \<open>None\<close>
  is a loop that never ends.
\<close>

partial_function (option) visual_loop ::
  "('b, 'g, 's) collaborators \<Rightarrow> 'g ScreenImage \<Rightarrow> 'g DetectionImage \<Rightarrow> real \<Rightarrow> int \<Rightarrow>
   's MatchingResults \<Rightarrow> 'b event list \<Rightarrow> (verdict \<times> 's MatchingResults \<times> 'b event list) option"
where
  "visual_loop C si ci ratio threshold m tr =
     (let m' = locateNextMinMax C m (scaledGray ci) ratio;
          tr' = tr @ [LocateNextMinMax]
      in if visual_body C si ci threshold m' = Continue
         then visual_loop C si ci ratio threshold m' tr'
         else Some (visual_body C si ci threshold m', m', tr'))"

text \<open>
  Lines 174 to 206. The image handed to the OCR engine is \<^verbatim>\<open>screenImage.fullSizeColor\<close>
  (line 183). On \<^verbatim>\<open>return\<close> the caller below clears the outcome (line 203).
\<close>

partial_function (option) text_loop ::
  "('b, 'g, 's) collaborators \<Rightarrow> 'g ScreenImage \<Rightarrow> 'g DetectionImage \<Rightarrow> real \<Rightarrow> string \<Rightarrow>
   's MatchingResults \<Rightarrow> int \<Rightarrow> 'b event list \<Rightarrow>
   (verdict \<times> 's MatchingResults \<times> 'b event list) option"
where
  "text_loop C si ci ratio identifying m repeatCycle tr =
     (let m' = locateNextMinMax C m (scaledGray ci) ratio;
          tr' = tr @ [LocateNextMinMax]
      in if \<not> isScaledContains C si (scaled (roi m'))
         then text_loop C si ci ratio identifying m' repeatCycle tr'
         else
           let img = fullSizeColor si;
               ocrText = getUTF8Text C img;
               tr'' = tr' @ [GetUTF8Text img]
           in if string_find ocrText identifying \<noteq> None then Some (Break True, m', tr'')
              else if repeatCycle + 1 \<ge> 100 then Some (Return, m', tr'')
              else text_loop C si ci ratio identifying m' (repeatCycle + 1) tr'')"

declare visual_loop.simps [code]
declare text_loop.simps [code]

section \<open>The two matchers\<close>

text \<open>Lines 136 to 142 and 208 to 214: the call of \<^verbatim>\<open>setResults\<close> after the loop.\<close>

definition reportResults ::
  "('b, 'g, 's) collaborators \<Rightarrow> ('b, 'g, 's) Detector \<Rightarrow> bool \<Rightarrow> ('b, 'g, 's) Detector" where
  "reportResults C d isFound =
     setResults d isFound
       (rx (fullSize (detectionRoi d)) + fullSizeCenterX C (roi (matchingResults d)))
       (ry (fullSize (detectionRoi d)) + fullSizeCenterY C (roi (matchingResults d)))
       (maxVal (matchingResults d))"

text \<open>
  Lines 104 to 109 and 164 to 169: \<^verbatim>\<open>initResults\<close> and \<^verbatim>\<open>cv::matchTemplate\<close>, which
  fills the score matrix.
\<close>

definition computeSurface ::
  "('b, 'g, 's) collaborators \<Rightarrow> ('b, 'g, 's) Detector \<Rightarrow> ('b, 'g, 's) Detector" where
  "computeSurface C d =
     (let search = croppedScaledGray (screenImage d);
          templ = scaledGray (conditionImage d)
      in d\<lparr>matchingResults :=
              (initResults C (matchingResults d) search templ)
                \<lparr>results := matchTemplate C search templ\<rparr>,
           trace := trace d @ [MatchTemplate]\<rparr>)"

text \<open>\<^verbatim>\<open>Detector::match(env, conditionBitmap, int threshold)\<close>, lines 85 to 143.\<close>

definition match_threshold ::
  "('b, 'g, 's) collaborators \<Rightarrow> ('b, 'g, 's) Detector \<Rightarrow> 'b \<Rightarrow> int \<Rightarrow>
   ('b, 'g, 's) Detector option" where
  "match_threshold C d bitmap threshold =
     (if \<not> isFullSizeContains C (screenImage d) (fullSize (detectionRoi d))
         \<or> \<not> isScaledContains C (screenImage d) (scaled (detectionRoi d))
      then Some (clearResults d)
      else
        let d1 = d\<lparr>conditionImage := processBitmap C bitmap (scaleRatio d),
                   trace := trace d @ [ProcessBitmap bitmap]\<rparr>;
            d2 = d1\<lparr>screenImage := setCropping C (screenImage d1) (detectionRoi d1)\<rparr>
        in if \<not> isCroppedScaledContains C (screenImage d2) (scaledSize (conditionImage d2))
           then Some (clearResults d2)
           else
             let d3 = computeSurface C d2
             in map_option
                  (\<lambda>(v, m, tr). reportResults C (d3\<lparr>matchingResults := m, trace := tr\<rparr>)
                                   (v = Break True))
                  (visual_loop C (screenImage d3) (conditionImage d3) (scaleRatio d3) threshold
                     (matchingResults d3) (trace d3)))"

text \<open>\<^verbatim>\<open>Detector::match(env, conditionBitmap, std::string identifying)\<close>, lines 145 to 215.\<close>

definition match_text ::
  "('b, 'g, 's) collaborators \<Rightarrow> ('b, 'g, 's) Detector \<Rightarrow> 'b \<Rightarrow> string \<Rightarrow>
   ('b, 'g, 's) Detector option" where
  "match_text C d bitmap identifying =
     (if \<not> isFullSizeContains C (screenImage d) (fullSize (detectionRoi d))
         \<or> \<not> isScaledContains C (screenImage d) (scaled (detectionRoi d))
      then Some (clearResults d)
      else
        let d1 = d\<lparr>conditionImage := processBitmap C bitmap (scaleRatio d),
                   trace := trace d @ [ProcessBitmap bitmap]\<rparr>;
            d2 = d1\<lparr>screenImage := setCropping C (screenImage d1) (detectionRoi d1)\<rparr>
        in if \<not> isCroppedScaledContains C (screenImage d2) (scaledSize (conditionImage d2))
           then Some (clearResults d2)
           else
             let d3 = computeSurface C d2
             in map_option
                  (\<lambda>(v, m, tr).
                     if v = Return then clearResults (d3\<lparr>matchingResults := m, trace := tr\<rparr>)
                     else reportResults C (d3\<lparr>matchingResults := m, trace := tr\<rparr>)
                            (v = Break True))
                  (text_loop C (screenImage d3) (conditionImage d3) (scaleRatio d3) identifying
                     (matchingResults d3) 0 (trace d3)))"

section \<open>The entry points\<close>

text \<open>
  The four overloads of \<^verbatim>\<open>Detector::detectCondition\<close>, lines 65 to 83. In the third one
  the parameter is named \<^verbatim>\<open>conditionImage\<close> and the body passes \<^verbatim>\<open>conditionBitmap\<close>
  (line 77), which is not the parameter.
\<close>

definition detectCondition_threshold ::
  "('b, 'g, 's) collaborators \<Rightarrow> ('b, 'g, 's) Detector \<Rightarrow> 'b \<Rightarrow> int \<Rightarrow>
   ('b, 'g, 's) Detector option" where
  "detectCondition_threshold C d bitmap threshold =
     match_threshold C
       (d\<lparr>detectionRoi := setFullSize C (fullSizeRoi (screenImage d)) (scaleRatio d)\<rparr>)
       bitmap threshold"

definition detectCondition_rect_threshold ::
  "('b, 'g, 's) collaborators \<Rightarrow> ('b, 'g, 's) Detector \<Rightarrow> 'b \<Rightarrow> int \<Rightarrow> int \<Rightarrow> int \<Rightarrow> int \<Rightarrow>
   int \<Rightarrow> ('b, 'g, 's) Detector option" where
  "detectCondition_rect_threshold C d bitmap x y w h threshold =
     match_threshold C
       (d\<lparr>detectionRoi :=
            setFullSize C \<lparr>rx = x, ry = y, rwidth = w, rheight = h\<rparr> (scaleRatio d)\<rparr>)
       bitmap threshold"

definition detectCondition_text ::
  "('b, 'g, 's) collaborators \<Rightarrow> ('b, 'g, 's) Detector \<Rightarrow> 'b \<Rightarrow> string \<Rightarrow>
   ('b, 'g, 's) Detector option" where
  "detectCondition_text C d conditionImage_arg identifying =
     (let d' = d\<lparr>detectionRoi := setFullSize C (fullSizeRoi (screenImage d)) (scaleRatio d)\<rparr>
      in match_text C d' (conditionBitmap d') identifying)"

definition detectCondition_rect_text ::
  "('b, 'g, 's) collaborators \<Rightarrow> ('b, 'g, 's) Detector \<Rightarrow> 'b \<Rightarrow> int \<Rightarrow> int \<Rightarrow> int \<Rightarrow> int \<Rightarrow>
   string \<Rightarrow> ('b, 'g, 's) Detector option" where
  "detectCondition_rect_text C d bitmap x y w h identifying =
     match_text C
       (d\<lparr>detectionRoi :=
            setFullSize C \<lparr>rx = x, ry = y, rwidth = w, rheight = h\<rparr> (scaleRatio d)\<rparr>)
       bitmap identifying"

section \<open>Notions for stating the properties\<close>

subsection \<open>The candidates of a search\<close>

text \<open>
  One extraction as the loops call it, the matching results after \<open>k\<close> extractions, and the
  bounds check of lines 118 and 179 on a candidate.
\<close>

definition nextCandidate ::
  "('b, 'g, 's) collaborators \<Rightarrow> 'g DetectionImage \<Rightarrow> real \<Rightarrow> 's MatchingResults \<Rightarrow>
   's MatchingResults" where
  "nextCandidate C ci ratio m = locateNextMinMax C m (scaledGray ci) ratio"

fun candidate ::
  "('b, 'g, 's) collaborators \<Rightarrow> 'g DetectionImage \<Rightarrow> real \<Rightarrow> 's MatchingResults \<Rightarrow> nat \<Rightarrow>
   's MatchingResults" where
  "candidate C ci ratio m 0 = m"
| "candidate C ci ratio m (Suc k) = candidate C ci ratio (nextCandidate C ci ratio m) k"

definition inBounds ::
  "('b, 'g, 's) collaborators \<Rightarrow> 'g ScreenImage \<Rightarrow> 's MatchingResults \<Rightarrow> bool" where
  "inBounds C si m \<longleftrightarrow> isScaledContains C si (scaled (roi m))"

text \<open>The bounds checks of the first \<open>k\<close> candidates extracted after \<open>m\<close>, in order.\<close>

fun inBoundsFlags ::
  "('b, 'g, 's) collaborators \<Rightarrow> 'g ScreenImage \<Rightarrow> 'g DetectionImage \<Rightarrow> real \<Rightarrow>
   's MatchingResults \<Rightarrow> nat \<Rightarrow> bool list" where
  "inBoundsFlags C si ci ratio m 0 = []"
| "inBoundsFlags C si ci ratio m (Suc k) =
     inBounds C si (nextCandidate C ci ratio m)
       # inBoundsFlags C si ci ratio (nextCandidate C ci ratio m) k"

subsection \<open>Reading a trace\<close>

text \<open>
  The events of a text search over candidates with the given bounds checks: every candidate is
  extracted, and the in-bounds ones are followed by an OCR extraction on \<open>img\<close>.
\<close>

fun text_events :: "Mat3 \<Rightarrow> bool list \<Rightarrow> 'b event list" where
  "text_events img [] = []"
| "text_events img (b # bs) =
     LocateNextMinMax # (if b then [GetUTF8Text img] else []) @ text_events img bs"

fun ocrImage :: "'b event \<Rightarrow> Mat3 option" where
  "ocrImage (GetUTF8Text img) = Some img"
| "ocrImage _ = None"

text \<open>The outcome an event writes to the result object, if it writes one.\<close>

fun outcomeOf :: "'b event \<Rightarrow> DetectionOutcome option" where
  "outcomeOf (SetResults f cx cy v) =
     Some \<lparr>isDetected = f, centerX = cx, centerY = cy, confidence = v\<rparr>"
| "outcomeOf ClearResults = Some notFound"
| "outcomeOf _ = None"

definition outcomes :: "'b event list \<Rightarrow> DetectionOutcome list" where
  "outcomes evs = List.map_filter outcomeOf evs"

definition ocrImages :: "'b event list \<Rightarrow> Mat3 list" where
  "ocrImages evs = List.map_filter ocrImage evs"

text \<open>The events a call has added to the trace of \<open>d\<close> when it ends in \<open>d'\<close>.\<close>

definition newEvents :: "('b, 'g, 's) Detector \<Rightarrow> ('b, 'g, 's) Detector \<Rightarrow> 'b event list" where
  "newEvents d d' = drop (length (trace d)) (trace d')"

subsection \<open>The state of a call when its loop starts\<close>

text \<open>
  The two validity checks of lines 87 and 98 (and 147 and 158), and the detector as it is
  after line 109 (and 169): template processed, screen cropped, score matrix computed.
\<close>

definition roiValid :: "('b, 'g, 's) collaborators \<Rightarrow> ('b, 'g, 's) Detector \<Rightarrow> bool" where
  "roiValid C d \<longleftrightarrow>
     isFullSizeContains C (screenImage d) (fullSize (detectionRoi d))
     \<and> isScaledContains C (screenImage d) (scaled (detectionRoi d))"

definition cropped :: "('b, 'g, 's) collaborators \<Rightarrow> ('b, 'g, 's) Detector \<Rightarrow> 'b \<Rightarrow>
    ('b, 'g, 's) Detector" where
  "cropped C d bitmap =
     d\<lparr>conditionImage := processBitmap C bitmap (scaleRatio d),
       trace := trace d @ [ProcessBitmap bitmap],
       screenImage := setCropping C (screenImage d) (detectionRoi d)\<rparr>"

definition templateFits :: "('b, 'g, 's) collaborators \<Rightarrow> ('b, 'g, 's) Detector \<Rightarrow> 'b \<Rightarrow> bool" where
  "templateFits C d bitmap \<longleftrightarrow>
     isCroppedScaledContains C (setCropping C (screenImage d) (detectionRoi d))
       (scaledSize (processBitmap C bitmap (scaleRatio d)))"

definition prepared :: "('b, 'g, 's) collaborators \<Rightarrow> ('b, 'g, 's) Detector \<Rightarrow> 'b \<Rightarrow>
    ('b, 'g, 's) Detector" where
  "prepared C d bitmap = computeSurface C (cropped C d bitmap)"

text \<open>The \<open>k\<close>-th candidate a call on \<open>d\<close> with the template \<open>bitmap\<close> extracts.\<close>

definition searchCandidate ::
  "('b, 'g, 's) collaborators \<Rightarrow> ('b, 'g, 's) Detector \<Rightarrow> 'b \<Rightarrow> nat \<Rightarrow> 's MatchingResults" where
  "searchCandidate C d bitmap k =
     candidate C (conditionImage (prepared C d bitmap)) (scaleRatio d)
       (matchingResults (prepared C d bitmap)) k"

definition searchInBounds ::
  "('b, 'g, 's) collaborators \<Rightarrow> ('b, 'g, 's) Detector \<Rightarrow> 'b \<Rightarrow> nat \<Rightarrow> bool" where
  "searchInBounds C d bitmap k \<longleftrightarrow>
     inBounds C (screenImage (prepared C d bitmap)) (searchCandidate C d bitmap k)"

text \<open>
  The outcome that lines 137 to 142 (and 209 to 214) report for the candidate \<open>m\<close>: the
  origin of the detection area plus the centre of the candidate, and its raw score.
\<close>

definition candidateOutcome ::
  "('b, 'g, 's) collaborators \<Rightarrow> ('b, 'g, 's) Detector \<Rightarrow> 's MatchingResults \<Rightarrow> bool \<Rightarrow>
   DetectionOutcome" where
  "candidateOutcome C d m f =
     \<lparr>isDetected = f,
      centerX = rx (fullSize (detectionRoi d)) + fullSizeCenterX C (roi m),
      centerY = ry (fullSize (detectionRoi d)) + fullSizeCenterY C (roi m),
      confidence = maxVal m\<rparr>"

text \<open>
  The colour distance as the spec words it, in exact arithmetic: the value of channel \<open>i\<close>
  of a pixel, the mean of channel \<open>i\<close> over the pixels of an image, and for two triples of
  channel means the sum of the absolute differences, times 100 and divided by 255 * 3.
\<close>

fun channel :: "nat \<Rightarrow> pixel \<Rightarrow> real" where
  "channel i (a, b, c) =
     (if i = 0 then real (unat a) else if i = 1 then real (unat b)
      else if i = 2 then real (unat c) else 0)"

definition channelMean :: "nat \<Rightarrow> Mat3 \<Rightarrow> real" where
  "channelMean i img = (\<Sum>p\<leftarrow>concat img. channel i p) / real (length (concat img))"

definition colorDistance :: "Scalar \<Rightarrow> Scalar \<Rightarrow> real" where
  "colorDistance a b = (\<Sum>i<3. \<bar>a i - b i\<bar>) * 100 / (255 * 3)"

text \<open>Channel means that lie between 0 and 255, as the exact means of 8-bit channels do.\<close>

definition byteMeans :: "Scalar \<Rightarrow> bool" where
  "byteMeans s \<longleftrightarrow> list_all (\<lambda>i. 0 \<le> s i \<and> s i \<le> 255) [0 ..< 3]"

text \<open>The value \<open>v\<close> is within \<open>k\<close> roundings of the exact value \<open>V\<close>.\<close>

definition nearly :: "nat \<Rightarrow> real \<Rightarrow> real \<Rightarrow> bool" where
  "nearly k v V \<longleftrightarrow> (1 - unitRoundoff) ^ k * V \<le> v \<and> v \<le> (1 + unitRoundoff) ^ k * V"

text \<open>
  What the OCR engine returns for the image the text loop hands to it, and the verdicts of
  the visual loop on the candidates of a call.
\<close>

definition frameText :: "('b, 'g, 's) collaborators \<Rightarrow> ('b, 'g, 's) Detector \<Rightarrow> 'b \<Rightarrow> string" where
  "frameText C d bitmap = getUTF8Text C (fullSizeColor (screenImage (prepared C d bitmap)))"

definition visualVerdict ::
  "('b, 'g, 's) collaborators \<Rightarrow> ('b, 'g, 's) Detector \<Rightarrow> 'b \<Rightarrow> int \<Rightarrow> nat \<Rightarrow> verdict" where
  "visualVerdict C d bitmap threshold k =
     visual_body C (screenImage (prepared C d bitmap)) (conditionImage (prepared C d bitmap))
       threshold (searchCandidate C d bitmap k)"

text \<open>
  The bounds checks of the first \<open>k\<close> candidates of a call, and the condition under which
  the text loop stops at candidate \<open>k + 1\<close>: that candidate is in bounds and, before it,
  no candidate was in bounds (when the frame's text contains the target) or exactly 99 were
  (when it does not).
\<close>

definition searchFlags ::
  "('b, 'g, 's) collaborators \<Rightarrow> ('b, 'g, 's) Detector \<Rightarrow> 'b \<Rightarrow> nat \<Rightarrow> bool list" where
  "searchFlags C d bitmap k = map (\<lambda>i. searchInBounds C d bitmap (Suc i)) [0 ..< k]"

definition textStops ::
  "('b, 'g, 's) collaborators \<Rightarrow> ('b, 'g, 's) Detector \<Rightarrow> 'b \<Rightarrow> string \<Rightarrow> nat \<Rightarrow> bool" where
  "textStops C d bitmap identifying k \<longleftrightarrow>
     searchInBounds C d bitmap (Suc k)
     \<and> count_list (searchFlags C d bitmap k) True =
         (if string_find (frameText C d bitmap) identifying \<noteq> None then 0 else 99)"

text \<open>
  The detector a call ends in when the visual loop stops at candidate \<open>k\<close>, and when the
  text loop stops at candidate \<open>k + 1\<close>.
\<close>

definition visualEnd ::
  "('b, 'g, 's) collaborators \<Rightarrow> ('b, 'g, 's) Detector \<Rightarrow> 'b \<Rightarrow> int \<Rightarrow> nat \<Rightarrow>
   ('b, 'g, 's) Detector" where
  "visualEnd C d bitmap threshold k =
     reportResults C
       ((prepared C d bitmap)
          \<lparr>matchingResults := searchCandidate C d bitmap k,
           trace := trace (prepared C d bitmap) @ replicate k LocateNextMinMax\<rparr>)
       (visualVerdict C d bitmap threshold k = Break True)"

definition textEnd ::
  "('b, 'g, 's) collaborators \<Rightarrow> ('b, 'g, 's) Detector \<Rightarrow> 'b \<Rightarrow> string \<Rightarrow> nat \<Rightarrow>
   ('b, 'g, 's) Detector" where
  "textEnd C d bitmap identifying k =
     (let d' = (prepared C d bitmap)
                 \<lparr>matchingResults := searchCandidate C d bitmap (Suc k),
                  trace := trace (prepared C d bitmap)
                    @ text_events (fullSizeColor (screenImage (prepared C d bitmap)))
                        (searchFlags C d bitmap k @ [True])\<rparr>
      in if string_find (frameText C d bitmap) identifying \<noteq> None
         then reportResults C d' True else clearResults d')"

section \<open>Reference collaborators\<close>

text \<open>
  Concrete collaborators, on which the properties below are exercised. Gray images are
  represented by their dimensions; the score matrix is represented by the successive maxima
  the correlation engine yields, each with its rectangle in the scaled space.
\<close>

text \<open>The dimensions of a colour image, and \<^verbatim>\<open>cv::Mat(image, rect)\<close>, the view on a rectangle.\<close>

definition matSize :: "Mat3 \<Rightarrow> Size" where
  "matSize img =
     \<lparr>swidth = (if img = [] then 0 else int (length (hd img))), sheight = int (length img)\<rparr>"

definition cropMat :: "Mat3 \<Rightarrow> Rect \<Rightarrow> Mat3" where
  "cropMat img r =
     map (\<lambda>row. take (nat (rwidth r)) (drop (nat (rx r)) row))
       (take (nat (rheight r)) (drop (nat (ry r)) img))"

text \<open>
  Modelled from the spec: the scaling of \<^verbatim>\<open>ScalableRoi\<close> and \<^verbatim>\<open>DetectionImage\<close>, which
  are not in \<^verbatim>\<open>detector.cpp\<close>. The scaled rectangle is the full-size one times the ratio,
  rounded componentwise.
\<close>

definition scaleRect :: "Rect \<Rightarrow> real \<Rightarrow> Rect" where
  "scaleRect r ratio =
     \<lparr>rx = round (real_of_int (rx r) * ratio), ry = round (real_of_int (ry r) * ratio),
      rwidth = round (real_of_int (rwidth r) * ratio),
      rheight = round (real_of_int (rheight r) * ratio)\<rparr>"

definition scaleSize :: "Size \<Rightarrow> real \<Rightarrow> Size" where
  "scaleSize s ratio =
     \<lparr>swidth = round (real_of_int (swidth s) * ratio),
      sheight = round (real_of_int (sheight s) * ratio)\<rparr>"

text \<open>
  Modelled from the spec: the containment checks of \<^verbatim>\<open>ScreenImage\<close>, which are not in
  \<^verbatim>\<open>detector.cpp\<close>. A rectangle is contained when it has a positive area and lies inside
  the image; the cropped search area contains a template that is not larger in either axis.
\<close>

definition rectInside :: "Rect \<Rightarrow> Size \<Rightarrow> bool" where
  "rectInside r s \<longleftrightarrow>
     0 \<le> rx r \<and> 0 \<le> ry r \<and> 0 < rwidth r \<and> 0 < rheight r
     \<and> rx r + rwidth r \<le> swidth s \<and> ry r + rheight r \<le> sheight s"

definition refIsFullSizeContains :: "Size ScreenImage \<Rightarrow> Rect \<Rightarrow> bool" where
  "refIsFullSizeContains si r \<longleftrightarrow> rectInside r (matSize (fullSizeColor si))"

definition refIsScaledContains :: "Size ScreenImage \<Rightarrow> Rect \<Rightarrow> bool" where
  "refIsScaledContains si r \<longleftrightarrow> rectInside r (scaledGray si)"

definition refIsCroppedScaledContains :: "Size ScreenImage \<Rightarrow> Size \<Rightarrow> bool" where
  "refIsCroppedScaledContains si s \<longleftrightarrow>
     swidth s \<le> swidth (croppedScaledGray si) \<and> sheight s \<le> sheight (croppedScaledGray si)"

text \<open>
  Modelled from the spec: \<^verbatim>\<open>DetectionImage::processBitmap\<close>,
  \<^verbatim>\<open>ScalableRoi::setFullSize\<close> and \<^verbatim>\<open>ScreenImage::setCropping\<close>, which are not in
  \<^verbatim>\<open>detector.cpp\<close>. The bitmap is its full-size colour pixels; cropping derives the views
  restricted to the region of interest.
\<close>

definition refProcessBitmap :: "Mat3 \<Rightarrow> real \<Rightarrow> Size DetectionImage" where
  "refProcessBitmap bitmap ratio =
     \<lparr>fullSizeColor = bitmap, scaledGray = scaleSize (matSize bitmap) ratio,
      scaledSize = scaleSize (matSize bitmap) ratio\<rparr>"

definition refSetFullSize :: "Rect \<Rightarrow> real \<Rightarrow> ScalableRoi" where
  "refSetFullSize r ratio = \<lparr>fullSize = r, scaled = scaleRect r ratio\<rparr>"

definition refSetCropping :: "Size ScreenImage \<Rightarrow> ScalableRoi \<Rightarrow> Size ScreenImage" where
  "refSetCropping si r =
     si\<lparr>croppedFullSizeColor := cropMat (fullSizeColor si) (fullSize r),
        croppedScaledGray := \<lparr>swidth = rwidth (scaled r), sheight = rheight (scaled r)\<rparr>\<rparr>"

text \<open>
  Modelled from the spec: \<^verbatim>\<open>MatchingResults::locateNextMinMax\<close> and the centre of a
  \<^verbatim>\<open>ScalableRoi\<close>, which are not in \<^verbatim>\<open>detector.cpp\<close>. An extraction takes the next
  maximum; once every location is suppressed the maximum is the sentinel minimum, found at
  the origin.
\<close>

definition refLocateNextMinMax ::
  "(Rect \<times> real) list MatchingResults \<Rightarrow> Size \<Rightarrow> real \<Rightarrow> (Rect \<times> real) list MatchingResults" where
  "refLocateNextMinMax m templ ratio =
     (case results m of
        [] \<Rightarrow>
          (let r = \<lparr>rx = 0, ry = 0, rwidth = swidth templ, rheight = sheight templ\<rparr>
           in \<lparr>roi = \<lparr>fullSize = scaleRect r (1 / ratio), scaled = r\<rparr>, maxVal = - 1,
               results = []\<rparr>)
      | (r, v) # rest \<Rightarrow>
          \<lparr>roi = \<lparr>fullSize = scaleRect r (1 / ratio), scaled = r\<rparr>, maxVal = v, results = rest\<rparr>)"

text \<open>
  Modelled from the spec: \<^verbatim>\<open>cv::mean\<close> of OpenCV, which is not in \<^verbatim>\<open>detector.cpp\<close>: the
  mean of every channel over all the pixels, in double arithmetic. The sum of the values of a
  channel is an integer that binary64 holds exactly; \<open>refMean\<close> multiplies it by the rounded
  reciprocal of the number of pixels, \<open>quotMean\<close> divides it by the number of pixels. A
  channel the image does not have, and every channel of an image without pixels, is 0.
\<close>

definition refMean :: "Mat3 \<Rightarrow> Scalar" where
  "refMean img i =
     (let px = concat img
      in if px = [] then 0 else dbl ((\<Sum>p\<leftarrow>px. channel i p) * dbl (1 / real (length px))))"

definition quotMean :: "Mat3 \<Rightarrow> Scalar" where
  "quotMean img i =
     (let px = concat img
      in if px = [] then 0 else dbl ((\<Sum>p\<leftarrow>px. channel i p) / real (length px)))"

definition refCenterX :: "ScalableRoi \<Rightarrow> int" where
  "refCenterX r = rx (fullSize r) + rwidth (fullSize r) div 2"

definition refCenterY :: "ScalableRoi \<Rightarrow> int" where
  "refCenterY r = ry (fullSize r) + rheight (fullSize r) div 2"

text \<open>
  The collaborators for a correlation engine that yields the maxima \<open>scores\<close> and an OCR
  engine that reads \<open>ocr img\<close> in \<open>img\<close>.
\<close>

definition refCollaborators ::
  "(Rect \<times> real) list \<Rightarrow> (Mat3 \<Rightarrow> string) \<Rightarrow> (Mat3, Size, (Rect \<times> real) list) collaborators" where
  "refCollaborators scores ocr =
     \<lparr>processBitmap = refProcessBitmap,
      setFullSize = refSetFullSize,
      isFullSizeContains = refIsFullSizeContains,
      isScaledContains = refIsScaledContains,
      setCropping = refSetCropping,
      isCroppedScaledContains = refIsCroppedScaledContains,
      initResults = (\<lambda>m search templ. m),
      matchTemplate = (\<lambda>search templ. scores),
      locateNextMinMax = refLocateNextMinMax,
      fullSizeCenterX = refCenterX,
      fullSizeCenterY = refCenterY,
      getUTF8Text = ocr,
      mean = refMean\<rparr>"

text \<open>
  A detector at scale ratio 1 that has ingested the frame \<open>frame\<close>, before any detection.
\<close>

definition freshDetector :: "Mat3 \<Rightarrow> (Mat3, Size, (Rect \<times> real) list) Detector" where
  "freshDetector frame =
     \<lparr>scaleRatio = 1,
      screenImage =
        \<lparr>fullSizeColor = frame, scaledGray = matSize frame, scaledSize = matSize frame,
         fullSizeRoi = \<lparr>rx = 0, ry = 0, rwidth = swidth (matSize frame),
                        rheight = sheight (matSize frame)\<rparr>,
         croppedFullSizeColor = frame, croppedScaledGray = matSize frame\<rparr>,
      conditionImage = \<lparr>fullSizeColor = [], scaledGray = matSize [], scaledSize = matSize []\<rparr>,
      detectionRoi = refSetFullSize \<lparr>rx = 0, ry = 0, rwidth = 0, rheight = 0\<rparr> 1,
      matchingResults =
        \<lparr>roi = refSetFullSize \<lparr>rx = 0, ry = 0, rwidth = 0, rheight = 0\<rparr> 1, maxVal = 0,
         results = []\<rparr>,
      detectionResult = notFound,
      conditionBitmap = [],
      trace = []\<rparr>"

section \<open>Concrete calls\<close>

text \<open>Pixels, and the detector as an entry point leaves it when it calls a matcher.\<close>

definition white :: pixel where "white = (255, 255, 255)"
definition black :: pixel where "black = (0, 0, 0)"

definition entered :: "Mat3 \<Rightarrow> Rect \<Rightarrow> (Mat3, Size, (Rect \<times> real) list) Detector" where
  "entered frame r = (freshDetector frame)\<lparr>detectionRoi := refSetFullSize r 1\<rparr>"

definition unitRect :: "int \<Rightarrow> Rect" where
  "unitRect x = \<lparr>rx = x, ry = 0, rwidth = 1, rheight = 1\<rparr>"

text \<open>
  A visual search for a template of one white and two black pixels on a frame of two white
  pixels and a black one, where normalised cross-correlation gives 0.5. With the second
  collaborators a maximum outside the frame is extracted first.
\<close>

definition lowTemplate :: Mat3 where
  "lowTemplate = [[white, black, black]]"

definition lowRect :: Rect where
  "lowRect = \<lparr>rx = 0, ry = 0, rwidth = 3, rheight = 1\<rparr>"

definition halfC :: "(Mat3, Size, (Rect \<times> real) list) collaborators" where
  "halfC = refCollaborators [(lowRect, 1 / 2)] (\<lambda>img. [])"

definition skipC :: "(Mat3, Size, (Rect \<times> real) list) collaborators" where
  "skipC = refCollaborators [(lowRect\<lparr>rx := 5\<rparr>, 7 / 8), (lowRect, 1 / 2)] (\<lambda>img. [])"

definition halfD :: "(Mat3, Size, (Rect \<times> real) list) Detector" where
  "halfD = entered [[white, white, black]] lowRect"

text \<open>
  The same search with a correlation engine whose every extraction yields a maximum outside
  the frame, and an OCR engine that reads nothing.
\<close>

definition strayC :: "(Mat3, Size, (Rect \<times> real) list) collaborators" where
  "strayC = halfC
     \<lparr>locateNextMinMax :=
        (\<lambda>m templ ratio.
           m\<lparr>roi := \<lparr>fullSize = lowRect\<lparr>rx := 5\<rparr>, scaled = lowRect\<lparr>rx := 5\<rparr>\<rparr>,
             maxVal := 7 / 8\<rparr>)\<rparr>"

text \<open>
  A visual search for a template of a white and a black pixel on a frame that starts with
  these two pixels and goes on with four black ones. The maxima are what normalised
  cross-correlation gives there: 1 at the occurrence of the template, 0 on the black windows.
\<close>

definition stripTemplate :: Mat3 where
  "stripTemplate = [[white, black]]"

definition stripC :: "(Mat3, Size, (Rect \<times> real) list) collaborators" where
  "stripC = refCollaborators
     [(\<lparr>rx = 0, ry = 0, rwidth = 2, rheight = 1\<rparr>, 1),
      (\<lparr>rx = 2, ry = 0, rwidth = 2, rheight = 1\<rparr>, 0),
      (\<lparr>rx = 4, ry = 0, rwidth = 2, rheight = 1\<rparr>, 0)] (\<lambda>img. [])"

definition stripD :: "(Mat3, Size, (Rect \<times> real) list) Detector" where
  "stripD = entered [[white, black, black, black, black, black]]
              \<lparr>rx = 0, ry = 0, rwidth = 6, rheight = 1\<rparr>"

text \<open>
  Images for the colour distance: five pixels whose channels have the mean 132.6, and 75
  white pixels.
\<close>

definition gray :: pixel where "gray = (153, 153, 153)"

definition fiveFrame :: Mat3 where
  "fiveFrame = [[white, white, gray, black, black]]"

definition whiteRow :: Mat3 where
  "whiteRow = [replicate 75 white]"

text \<open>
  A text search on a frame of two pixels in which the OCR engine reads \<open>LOGIN\<close>, and
  nothing in any other image. The score matrix holds two maxima: the first one lies outside
  the frame, the second one is in bounds with the score 0, which no threshold of the visual
  mode accepts. Before the call, \<open>conditionBitmap\<close> holds a bitmap of three pixels.
\<close>

definition textFrame :: Mat3 where
  "textFrame = [[white, black]]"

definition frameReader :: "Mat3 \<Rightarrow> string" where
  "frameReader img = (if img = textFrame then ''LOGIN'' else [])"

definition textC :: "(Mat3, Size, (Rect \<times> real) list) collaborators" where
  "textC = refCollaborators [(unitRect 5, 7 / 8), (unitRect 0, 0)] frameReader"

definition idleD :: "(Mat3, Size, (Rect \<times> real) list) Detector" where
  "idleD = (freshDetector textFrame)\<lparr>conditionBitmap := [[black, black, black]]\<rparr>"

definition textD :: "(Mat3, Size, (Rect \<times> real) list) Detector" where
  "textD = idleD\<lparr>detectionRoi := refSetFullSize \<lparr>rx = 0, ry = 0, rwidth = 2, rheight = 1\<rparr> 1\<rparr>"

text \<open>
  A region of interest of 10 by 10 in a frame of 30 by 30, for a template of 20 by 20; and
  a region of interest of 5 by 5 on a frame of one pixel.
\<close>

definition smallD :: "(Mat3, Size, (Rect \<times> real) list) Detector" where
  "smallD = entered (replicate 30 (replicate 30 black))
              \<lparr>rx = 0, ry = 0, rwidth = 10, rheight = 10\<rparr>"

definition outsideD :: "(Mat3, Size, (Rect \<times> real) list) Detector" where
  "outsideD = entered [[white]] \<lparr>rx = 0, ry = 0, rwidth = 5, rheight = 5\<rparr>"

definition bigTemplate :: Mat3 where
  "bigTemplate = replicate 20 (replicate 20 white)"

text \<open>The defining equations that evaluate a concrete call.\<close>

lemmas ref_defs = refCollaborators_def refProcessBitmap_def refSetFullSize_def
  refIsFullSizeContains_def refIsScaledContains_def refSetCropping_def
  refIsCroppedScaledContains_def refLocateNextMinMax_def refCenterX_def refCenterY_def
  rectInside_def matSize_def scaleRect_def scaleSize_def cropMat_def freshDetector_def
  entered_def unitRect_def white_def black_def textFrame_def frameReader_def idleD_def
  bigTemplate_def Let_def

lemmas low_defs = lowTemplate_def lowRect_def halfC_def skipC_def halfD_def

lemmas dbl_eval = dbl_def binade_def binadeUp.simps binadeDown.simps nearestEven_def Let_def

lemmas search_defs = roiValid_def templateFits_def prepared_def cropped_def computeSurface_def
  searchCandidate_def searchInBounds_def inBounds_def nextCandidate_def visualVerdict_def
  visual_body_def isResultAboveThreshold_def frameText_def

section \<open>Rounding\<close>

lemma nearestEven_close: "\<bar>real_of_int (nearestEven x) - x\<bar> \<le> 1 / 2"
  unfolding nearestEven_def Let_def by (auto simp add: abs_le_iff; linarith)

lemma nearestEven_of_int: "nearestEven (of_int n) = n"
  by (simp add: nearestEven_def)

lemma nearestEven_mono:
  assumes "x \<le> y"
  shows "nearestEven x \<le> nearestEven y"
proof (cases "\<lfloor>x\<rfloor> = \<lfloor>y\<rfloor>")
  case True
  with assms show ?thesis
    unfolding nearestEven_def Let_def by (auto; linarith)
next
  case False
  with assms have "\<lfloor>x\<rfloor> + 1 \<le> \<lfloor>y\<rfloor>"
    using floor_mono [OF assms] by linarith
  moreover have "nearestEven x \<le> \<lfloor>x\<rfloor> + 1"
    unfolding nearestEven_def Let_def by auto
  moreover have "\<lfloor>y\<rfloor> \<le> nearestEven y"
    unfolding nearestEven_def Let_def by auto
  ultimately show ?thesis by linarith
qed

lemma binadeUp_spec:
  "1 \<le> x \<Longrightarrow> 2 powi binadeUp x \<le> x \<and> x < 2 powi (binadeUp x + 1)"
proof (induction x rule: binadeUp.induct)
  case (1 x)
  show ?case
  proof (cases "x < 2")
    case True
    with 1(2) show ?thesis by (simp add: binadeUp.simps)
  next
    case False
    then have "1 \<le> x / 2" by simp
    from 1(1) [OF False this]
    have "2 powi binadeUp (x / 2) \<le> x / 2" "x / 2 < 2 powi (binadeUp (x / 2) + 1)"
      by simp_all
    then have "2 * 2 powi binadeUp (x / 2) \<le> x" "x < 2 * 2 powi (binadeUp (x / 2) + 1)"
      by simp_all
    moreover have "binadeUp x = binadeUp (x / 2) + 1"
      using False by (simp add: binadeUp.simps)
    ultimately show ?thesis
      by (simp add: power_int_add)
  qed
qed

lemma binadeDown_spec:
  "0 < x \<Longrightarrow> x < 1 \<Longrightarrow> 2 powi binadeDown x \<le> x \<and> x < 2 powi (binadeDown x + 1)"
proof (induction x rule: binadeDown.induct)
  case (1 x)
  have step: "binadeDown x = binadeDown (2 * x) - 1"
    using 1(2,3) by (subst binadeDown.simps) simp
  have c: "\<not> (x \<le> 0 \<or> 1 \<le> x)" using 1(2,3) by simp
  show ?case
  proof (cases "2 * x < 1")
    case True
    from 1(1) [OF c _ True] 1(2)
    have "2 powi binadeDown (2 * x) \<le> 2 * x" "2 * x < 2 powi (binadeDown (2 * x) + 1)"
      by simp_all
    then show ?thesis
      by (simp add: step power_int_diff power_int_add)
  next
    case False
    then have "binadeDown (2 * x) = 0" by (subst binadeDown.simps) simp
    with False 1(3) show ?thesis
      by (simp add: step power_int_minus)
  qed
qed

lemma binade_spec:
  assumes "0 < x"
  shows "2 powi binade x \<le> x \<and> x < 2 powi (binade x + 1)"
  using assms binadeUp_spec [of x] binadeDown_spec [of x]
  by (cases "1 \<le> x") (simp_all add: binade_def)

lemma binade_mono:
  assumes "0 < x" "x \<le> y"
  shows "binade x \<le> binade y"
proof (rule ccontr)
  assume "\<not> binade x \<le> binade y"
  then have "binade y + 1 \<le> binade x" by simp
  then have "(2::real) powi (binade y + 1) \<le> 2 powi binade x"
    by (intro power_int_increasing) simp_all
  with binade_spec [of x] binade_spec [of y] assms show False by simp
qed

lemma dbl_zero: "dbl 0 = 0"
  by (simp add: dbl_def)

lemma dbl_minus: "dbl (- x) = - dbl x"
  by (simp add: dbl_def Let_def sgn_minus)

lemma dbl_pos:
  assumes "0 < x"
  shows "dbl x = real_of_int (nearestEven (x / 2 powi (binade x - 52))) * 2 powi (binade x - 52)"
  using assms by (simp add: dbl_def Let_def)

lemma mantissa_range:
  assumes "0 < x"
  shows "2 ^ 52 \<le> x / 2 powi (binade x - 52) \<and> x / 2 powi (binade x - 52) < 2 ^ 53"
proof -
  have q: "(2::real) powi (binade x - 52) = 2 powi binade x / 2 ^ 52"
    by (simp add: power_int_diff)
  have p: "0 < (2::real) powi binade x" by simp
  from binade_spec [OF assms] have "2 powi binade x \<le> x" "x < 2 * 2 powi binade x"
    by (simp_all add: power_int_add)
  with p show ?thesis
    by (simp add: q pos_le_divide_eq pos_divide_less_eq)
qed

lemma nearestEven_range:
  assumes "2 ^ 52 \<le> m" "m < 2 ^ 53"
  shows "2 ^ 52 \<le> nearestEven m \<and> nearestEven m \<le> 2 ^ 53"
proof -
  have "nearestEven (of_int (2 ^ 52)) \<le> nearestEven m"
    using assms(1) by (intro nearestEven_mono) simp
  moreover have "nearestEven m \<le> nearestEven (of_int (2 ^ 53))"
    using assms(2) by (intro nearestEven_mono) simp
  ultimately show ?thesis by (simp only: nearestEven_of_int)
qed

lemma dbl_binade:
  assumes "0 < x"
  shows "2 powi binade x \<le> dbl x \<and> dbl x \<le> 2 powi (binade x + 1)"
proof -
  let ?q = "(2::real) powi (binade x - 52)"
  let ?n = "nearestEven (x / ?q)"
  have q: "0 \<le> ?q" by simp
  from nearestEven_range mantissa_range [OF assms]
  have r: "2 ^ 52 \<le> ?n" "?n \<le> 2 ^ 53" by blast+
  from r(1) have "real_of_int (2 ^ 52) \<le> real_of_int ?n" by (simp only: of_int_le_iff)
  then have lo: "real_of_int (2 ^ 52) * ?q \<le> real_of_int ?n * ?q"
    using q by (rule mult_right_mono)
  from r(2) have "real_of_int ?n \<le> real_of_int (2 ^ 53)" by (simp only: of_int_le_iff)
  then have hi: "real_of_int ?n * ?q \<le> real_of_int (2 ^ 53) * ?q"
    using q by (rule mult_right_mono)
  have e1: "real_of_int (2 ^ 52) * ?q = 2 powi binade x"
    by (simp add: power_int_diff)
  have e2: "real_of_int (2 ^ 53) * ?q = 2 powi (binade x + 1)"
    by (simp add: power_int_diff power_int_add)
  from lo hi show ?thesis
    unfolding e1 e2 dbl_pos [OF assms] by (rule conjI)
qed

lemma dbl_nonneg: "0 \<le> x \<Longrightarrow> 0 \<le> dbl x"
proof (cases "x = 0")
  case True
  then show ?thesis by (simp add: dbl_zero)
next
  case False
  assume "0 \<le> x"
  with False have "0 < x" by simp
  from dbl_binade [OF this] have "2 powi binade x \<le> dbl x" ..
  moreover have "0 < (2::real) powi binade x" by simp
  ultimately show ?thesis by linarith
qed

lemma dbl_mono_pos:
  assumes "0 < x" "x \<le> y"
  shows "dbl x \<le> dbl y"
proof (cases "binade x = binade y")
  case True
  let ?q = "(2::real) powi (binade y - 52)"
  have q: "0 < ?q" by simp
  from assms(2) q have "x / ?q \<le> y / ?q" by (simp add: divide_right_mono)
  then have "nearestEven (x / ?q) \<le> nearestEven (y / ?q)" by (rule nearestEven_mono)
  then have "real_of_int (nearestEven (x / ?q)) * ?q \<le> real_of_int (nearestEven (y / ?q)) * ?q"
    using q by (simp add: mult_right_mono)
  with assms True show ?thesis by (simp add: dbl_pos)
next
  case False
  from assms have y: "0 < y" by simp
  from False binade_mono [OF assms] have "binade x + 1 \<le> binade y" by simp
  then have "(2::real) powi (binade x + 1) \<le> 2 powi binade y"
    by (intro power_int_increasing) simp_all
  with dbl_binade [OF assms(1)] dbl_binade [OF y] show ?thesis by linarith
qed

lemma dbl_mono: "0 \<le> x \<Longrightarrow> x \<le> y \<Longrightarrow> dbl x \<le> dbl y"
  using dbl_mono_pos [of x y] dbl_nonneg [of y] by (cases "x = 0") (simp_all add: dbl_zero)

lemma dbl_abs: "\<bar>dbl x\<bar> = dbl \<bar>x\<bar>"
  using dbl_nonneg [of x] dbl_nonneg [of "- x"] by (cases "0 \<le> x") (simp_all add: dbl_minus abs_if)

lemma dbl_close_pos:
  assumes "0 < x"
  shows "\<bar>dbl x - x\<bar> \<le> x / 2 ^ 53"
proof -
  let ?q = "(2::real) powi (binade x - 52)"
  have q: "0 < ?q" by simp
  have "dbl x - x = (real_of_int (nearestEven (x / ?q)) - x / ?q) * ?q"
    using assms q by (simp add: dbl_pos algebra_simps)
  then have "\<bar>dbl x - x\<bar> = \<bar>real_of_int (nearestEven (x / ?q)) - x / ?q\<bar> * ?q"
    using q by (simp add: abs_mult)
  also have "\<dots> \<le> 1 / 2 * ?q"
    using nearestEven_close [of "x / ?q"] q by (intro mult_right_mono) simp_all
  also have "\<dots> = 2 powi binade x / 2 ^ 53"
    by (simp add: power_int_diff)
  also have "\<dots> \<le> x / 2 ^ 53"
    using binade_spec [OF assms] by (simp add: divide_right_mono)
  finally show ?thesis .
qed

lemma dbl_close: "\<bar>dbl x - x\<bar> \<le> \<bar>x\<bar> / 2 ^ 53"
proof (cases "0 < x")
  case True
  with dbl_close_pos [OF True] show ?thesis by simp
next
  case False
  show ?thesis
  proof (cases "x = 0")
    case True
    then show ?thesis by (simp add: dbl_zero)
  next
    case f: False
    with False have n: "0 < - x" by simp
    from dbl_close_pos [OF n] have "\<bar>- dbl x + x\<bar> \<le> - x / 2 ^ 53"
      by (simp add: dbl_minus)
    moreover have "\<bar>- dbl x + x\<bar> = \<bar>dbl x - x\<bar>" by simp
    moreover have "\<bar>x\<bar> = - x" using n by simp
    ultimately show ?thesis by simp
  qed
qed

section \<open>The colour distance is a rounded, normalised distance of channel means\<close>

lemma fold_diff3:
  "fold (\<lambda>i d. dbl (d + g i)) [0 ..< 3] (0::real) = dbl (dbl (dbl (g 0) + g 1) + g 2)"
  by (simp add: upt_rec numeral_eq_Suc)

lemma getColorDiff_eq:
  "getColorDiff C X Y =
     dbl (dbl (dbl (dbl (dbl \<bar>dbl (mean C X 0 - mean C Y 0)\<bar> + \<bar>dbl (mean C X 1 - mean C Y 1)\<bar>)
                 + \<bar>dbl (mean C X 2 - mean C Y 2)\<bar>) * 100) / (255 * 3))"
  by (simp add: getColorDiff_def Let_def fold_diff3)

lemma getColorDiff_self: "getColorDiff C X X = 0"
  by (simp add: getColorDiff_eq dbl_zero)

lemma dbl_fixed:
  "dbl 255 = 255" "dbl 510 = 510" "dbl 765 = 765" "dbl 76500 = 76500" "dbl 100 = 100"
  by (simp_all add: dbl_eval)

lemma unitRoundoff_range: "0 \<le> unitRoundoff" "unitRoundoff \<le> 1" "0 \<le> 1 - unitRoundoff"
  by (simp_all add: unitRoundoff_def)

lemma nearly_refl: "nearly 0 v v"
  by (simp add: nearly_def)

lemma nearly_nonneg: "nearly k v V \<Longrightarrow> 0 \<le> V \<Longrightarrow> 0 \<le> v"
proof -
  assume a: "nearly k v V" "0 \<le> V"
  have "(0::real) \<le> (1 - unitRoundoff) ^ k" using unitRoundoff_range by simp
  then have "0 \<le> (1 - unitRoundoff) ^ k * V" using a(2) by (rule mult_nonneg_nonneg)
  with a(1) show ?thesis by (simp add: nearly_def)
qed

lemma rel_bounds:
  fixes d v u :: real
  assumes "\<bar>d - v\<bar> \<le> v * u"
  shows "(1 - u) * v \<le> d \<and> d \<le> (1 + u) * v"
  using assms by (simp add: abs_le_iff algebra_simps)

lemma dbl_rel:
  assumes "0 \<le> v"
  shows "(1 - unitRoundoff) * v \<le> dbl v \<and> dbl v \<le> (1 + unitRoundoff) * v"
proof -
  from dbl_close [of v] assms have "\<bar>dbl v - v\<bar> \<le> v * unitRoundoff"
    by (simp add: unitRoundoff_def)
  then show ?thesis by (rule rel_bounds)
qed

lemma nearly_dbl:
  assumes "nearly k v V" "0 \<le> V"
  shows "nearly (Suc k) (dbl v) V"
proof -
  from nearly_nonneg [OF assms] have v: "0 \<le> v" .
  from assms(1) have b: "(1 - unitRoundoff) ^ k * V \<le> v" "v \<le> (1 + unitRoundoff) ^ k * V"
    by (simp_all add: nearly_def)
  have "(1 - unitRoundoff) * ((1 - unitRoundoff) ^ k * V) \<le> (1 - unitRoundoff) * v"
    using b(1) unitRoundoff_range by (intro mult_left_mono) simp_all
  moreover have "(1 + unitRoundoff) * v \<le> (1 + unitRoundoff) * ((1 + unitRoundoff) ^ k * V)"
    using b(2) unitRoundoff_range by (intro mult_left_mono) simp_all
  ultimately show ?thesis
    using dbl_rel [OF v] unfolding nearly_def power_Suc mult.assoc by linarith
qed

lemma nearly_weaken:
  assumes "nearly j v V" "j \<le> k" "0 \<le> V"
  shows "nearly k v V"
proof -
  have "(1 - unitRoundoff :: real) ^ k \<le> (1 - unitRoundoff) ^ j"
    using assms(2) unitRoundoff_range by (intro power_decreasing) simp_all
  then have "(1 - unitRoundoff) ^ k * V \<le> (1 - unitRoundoff) ^ j * V"
    using assms(3) by (rule mult_right_mono)
  moreover have "(1 + unitRoundoff :: real) ^ j \<le> (1 + unitRoundoff) ^ k"
    using assms(2) unitRoundoff_range by (intro power_increasing) simp_all
  then have "(1 + unitRoundoff) ^ j * V \<le> (1 + unitRoundoff) ^ k * V"
    using assms(3) by (rule mult_right_mono)
  ultimately show ?thesis
    using assms(1) unfolding nearly_def by linarith
qed

lemma nearly_add: "nearly k v V \<Longrightarrow> nearly k w W \<Longrightarrow> nearly k (v + w) (V + W)"
  unfolding nearly_def by (simp add: algebra_simps)

lemma nearly_mult:
  assumes "nearly k v V" "0 \<le> c"
  shows "nearly k (v * c) (V * c)"
proof -
  from assms have "(1 - unitRoundoff) ^ k * V * c \<le> v * c" "v * c \<le> (1 + unitRoundoff) ^ k * V * c"
    unfolding nearly_def by (simp_all add: mult_right_mono)
  then show ?thesis unfolding nearly_def by (simp add: mult.assoc)
qed

lemma nearly_abs_dbl: "nearly 1 \<bar>dbl x\<bar> \<bar>x\<bar>"
  using nearly_dbl [OF nearly_refl, of "\<bar>x\<bar>"] by (simp add: dbl_abs)

lemma nearly_step:
  assumes "nearly k s S" "0 \<le> S" "1 \<le> k"
  shows "nearly (Suc k) (dbl (s + \<bar>dbl x\<bar>)) (S + \<bar>x\<bar>)"
proof -
  have "nearly k \<bar>dbl x\<bar> \<bar>x\<bar>"
    using nearly_abs_dbl [of x] assms(3) by (rule nearly_weaken) simp
  with assms(1) have "nearly k (s + \<bar>dbl x\<bar>) (S + \<bar>x\<bar>)" by (rule nearly_add)
  then show ?thesis using assms(2) by (intro nearly_dbl) simp_all
qed

lemma sum_lessThan_3: "(\<Sum>i<(3::nat). f i) = f 0 + f 1 + (f 2 :: real)"
  by (simp add: numeral_3_eq_3 numeral_2_eq_2)

lemma getColorDiff_nearly:
  "nearly 6 (getColorDiff C X Y) (colorDistance (mean C X) (mean C Y))"
proof -
  let ?D = "\<lambda>i. \<bar>mean C X i - mean C Y i\<bar>"
  let ?d = "\<lambda>i. \<bar>dbl (mean C X i - mean C Y i)\<bar>"
  have "nearly 2 (dbl (?d 0)) (?D 0)"
    using nearly_dbl [OF nearly_abs_dbl, of "mean C X 0 - mean C Y 0"] by (simp add: numeral_2_eq_2)
  then have "nearly (Suc 2) (dbl (dbl (?d 0) + ?d 1)) (?D 0 + ?D 1)"
    by (rule nearly_step) simp_all
  then have "nearly (Suc (Suc 2)) (dbl (dbl (dbl (?d 0) + ?d 1) + ?d 2)) (?D 0 + ?D 1 + ?D 2)"
    by (rule nearly_step) simp_all
  then have "nearly (Suc (Suc 2)) (dbl (dbl (dbl (?d 0) + ?d 1) + ?d 2) * 100)
      ((?D 0 + ?D 1 + ?D 2) * 100)"
    by (rule nearly_mult) simp
  then have "nearly (Suc (Suc (Suc 2))) (dbl (dbl (dbl (dbl (?d 0) + ?d 1) + ?d 2) * 100))
      ((?D 0 + ?D 1 + ?D 2) * 100)"
    by (rule nearly_dbl) simp
  then have "nearly (Suc (Suc (Suc 2)))
      (dbl (dbl (dbl (dbl (?d 0) + ?d 1) + ?d 2) * 100) * (1 / (255 * 3)))
      ((?D 0 + ?D 1 + ?D 2) * 100 * (1 / (255 * 3)))"
    by (rule nearly_mult) simp
  then have "nearly (Suc (Suc (Suc (Suc 2))))
      (dbl (dbl (dbl (dbl (dbl (?d 0) + ?d 1) + ?d 2) * 100) * (1 / (255 * 3))))
      ((?D 0 + ?D 1 + ?D 2) * 100 * (1 / (255 * 3)))"
    by (rule nearly_dbl) simp
  moreover have "Suc (Suc (Suc (Suc 2))) = 6" by simp
  ultimately show ?thesis
    by (simp add: getColorDiff_eq colorDistance_def sum_lessThan_3)
qed

lemma getColorDiff_nonneg: "0 \<le> getColorDiff C X Y"
  unfolding getColorDiff_eq by (intro dbl_nonneg divide_nonneg_nonneg mult_nonneg_nonneg add_nonneg_nonneg) simp_all

lemma abs_dbl_byte:
  assumes "0 \<le> a" "a \<le> 255" "0 \<le> b" "b \<le> 255"
  shows "\<bar>dbl (a - b)\<bar> \<le> 255"
proof -
  from assms have "\<bar>a - b\<bar> \<le> 255" by linarith
  with dbl_mono [of "\<bar>a - b\<bar>" 255] show ?thesis
    by (simp add: dbl_abs dbl_fixed)
qed

lemma getColorDiff_byte_bound:
  assumes "byteMeans (mean C X)" "byteMeans (mean C Y)"
  shows "getColorDiff C X Y \<le> 100"
proof -
  let ?d = "\<lambda>i. \<bar>dbl (mean C X i - mean C Y i)\<bar>"
  have d: "?d i \<le> 255" if "i < 3" for i
  proof -
    from that have "i \<in> set [0 ..< 3]" by simp
    with assms have "0 \<le> mean C X i \<and> mean C X i \<le> 255" "0 \<le> mean C Y i \<and> mean C Y i \<le> 255"
      unfolding byteMeans_def list_all_iff by blast+
    then show ?thesis by (intro abs_dbl_byte) simp_all
  qed
  have n: "0 \<le> ?d i" for i by simp
  have s0: "dbl (?d 0) \<le> 255" "0 \<le> dbl (?d 0)"
    using dbl_mono [OF n [of 0] d [of 0]] dbl_nonneg [OF n [of 0]] by (simp_all add: dbl_fixed)
  have s1: "dbl (dbl (?d 0) + ?d 1) \<le> 510" "0 \<le> dbl (dbl (?d 0) + ?d 1)"
  proof -
    from s0 d [of 1] n [of 1] have "0 \<le> dbl (?d 0) + ?d 1" "dbl (?d 0) + ?d 1 \<le> 510" by simp_all
    from dbl_mono [OF this] dbl_nonneg [OF this(1)]
    show "dbl (dbl (?d 0) + ?d 1) \<le> 510" "0 \<le> dbl (dbl (?d 0) + ?d 1)"
      by (simp_all add: dbl_fixed)
  qed
  have s2: "dbl (dbl (dbl (?d 0) + ?d 1) + ?d 2) \<le> 765" "0 \<le> dbl (dbl (dbl (?d 0) + ?d 1) + ?d 2)"
  proof -
    from s1 d [of 2] n [of 2] have "0 \<le> dbl (dbl (?d 0) + ?d 1) + ?d 2"
      "dbl (dbl (?d 0) + ?d 1) + ?d 2 \<le> 765" by simp_all
    from dbl_mono [OF this] dbl_nonneg [OF this(1)]
    show "dbl (dbl (dbl (?d 0) + ?d 1) + ?d 2) \<le> 765" "0 \<le> dbl (dbl (dbl (?d 0) + ?d 1) + ?d 2)"
      by (simp_all add: dbl_fixed)
  qed
  have p: "dbl (dbl (dbl (dbl (?d 0) + ?d 1) + ?d 2) * 100) \<le> 76500"
    "0 \<le> dbl (dbl (dbl (dbl (?d 0) + ?d 1) + ?d 2) * 100)"
  proof -
    from s2 have "0 \<le> dbl (dbl (dbl (?d 0) + ?d 1) + ?d 2) * 100"
      "dbl (dbl (dbl (?d 0) + ?d 1) + ?d 2) * 100 \<le> 76500" by simp_all
    from dbl_mono [OF this] dbl_nonneg [OF this(1)]
    show "dbl (dbl (dbl (dbl (?d 0) + ?d 1) + ?d 2) * 100) \<le> 76500"
      "0 \<le> dbl (dbl (dbl (dbl (?d 0) + ?d 1) + ?d 2) * 100)"
      by (simp_all add: dbl_fixed)
  qed
  from p have "0 \<le> dbl (dbl (dbl (dbl (?d 0) + ?d 1) + ?d 2) * 100) / (255 * 3)"
    "dbl (dbl (dbl (dbl (?d 0) + ?d 1) + ?d 2) * 100) / (255 * 3) \<le> 100" by simp_all
  from dbl_mono [OF this] show ?thesis
    by (simp add: getColorDiff_eq dbl_fixed)
qed

text \<open>
  C9, as amended. For any two images, \<open>getColorDiff\<close> is the sum over the three channels
  of the absolute differences of the channel means that \<^verbatim>\<open>cv::mean\<close> returns, times 100 and
  divided by 255 * 3, computed in double arithmetic with every operation rounded. It is
  within six roundings of the exact value of that expression on the means returned, that is
  between \<open>(1 - 1 / 2 ^ 53) ^ 6\<close> and \<open>(1 + 1 / 2 ^ 53) ^ 6\<close> times it; it is never
  negative; it is at most 100 when the means returned lie between 0 and 255; and it is 0 for
  an image and itself.
\<close>

theorem getColorDiff_channel_means:
  "getColorDiff C X Y =
     dbl (dbl (dbl (dbl (dbl \<bar>dbl (mean C X 0 - mean C Y 0)\<bar> + \<bar>dbl (mean C X 1 - mean C Y 1)\<bar>)
                 + \<bar>dbl (mean C X 2 - mean C Y 2)\<bar>) * 100) / (255 * 3))
   \<and> (1 - unitRoundoff) ^ 6 * colorDistance (mean C X) (mean C Y) \<le> getColorDiff C X Y
   \<and> getColorDiff C X Y \<le> (1 + unitRoundoff) ^ 6 * colorDistance (mean C X) (mean C Y)
   \<and> 0 \<le> getColorDiff C X Y
   \<and> (byteMeans (mean C X) \<and> byteMeans (mean C Y) \<longrightarrow> getColorDiff C X Y \<le> 100)
   \<and> getColorDiff C X X = 0"
  using getColorDiff_eq [of C X Y] getColorDiff_nearly [of C X Y] getColorDiff_nonneg [of C X Y]
    getColorDiff_byte_bound [of C X Y] getColorDiff_self [of C X]
  unfolding nearly_def by blast

section \<open>The search loops\<close>

lemma visual_loop_step:
  "visual_loop C si ci ratio t m tr =
     (if visual_body C si ci t (nextCandidate C ci ratio m) = Continue
      then visual_loop C si ci ratio t (nextCandidate C ci ratio m) (tr @ [LocateNextMinMax])
      else Some (visual_body C si ci t (nextCandidate C ci ratio m), nextCandidate C ci ratio m,
                 tr @ [LocateNextMinMax]))"
  by (subst visual_loop.simps) (simp add: Let_def nextCandidate_def)

lemma visual_loop_decides:
  assumes "\<forall>i<k. visual_body C si ci t (candidate C ci ratio m (Suc i)) = Continue"
    and "visual_body C si ci t (candidate C ci ratio m (Suc k)) \<noteq> Continue"
  shows "visual_loop C si ci ratio t m tr =
           Some (visual_body C si ci t (candidate C ci ratio m (Suc k)),
                 candidate C ci ratio m (Suc k),
                 tr @ replicate (Suc k) LocateNextMinMax)"
  using assms
proof (induction k arbitrary: m tr)
  case 0
  then show ?case by (subst visual_loop_step) simp
next
  case (Suc k)
  from Suc.prems(1) [rule_format, of 0]
  have first: "visual_body C si ci t (nextCandidate C ci ratio m) = Continue"
    by simp
  have rest: "\<forall>i<k. visual_body C si ci t (candidate C ci ratio (nextCandidate C ci ratio m) (Suc i)) = Continue"
  proof (intro allI impI)
    fix i assume "i < k"
    with Suc.prems(1) [rule_format, of "Suc i"]
    show "visual_body C si ci t (candidate C ci ratio (nextCandidate C ci ratio m) (Suc i)) = Continue"
      by simp
  qed
  from Suc.prems(2)
  have last: "visual_body C si ci t (candidate C ci ratio (nextCandidate C ci ratio m) (Suc k)) \<noteq> Continue"
    by simp
  have "visual_loop C si ci ratio t m tr =
          visual_loop C si ci ratio t (nextCandidate C ci ratio m) (tr @ [LocateNextMinMax])"
    by (subst visual_loop_step) (simp only: first simp_thms if_True)
  also note Suc.IH [OF rest last]
  finally have "visual_loop C si ci ratio t m tr =
      Some (visual_body C si ci t (candidate C ci ratio (nextCandidate C ci ratio m) (Suc k)),
          candidate C ci ratio (nextCandidate C ci ratio m) (Suc k),
          (tr @ [LocateNextMinMax]) @ replicate (Suc k) LocateNextMinMax)" .
  moreover have "(tr @ [LocateNextMinMax]) @ replicate (Suc k) LocateNextMinMax
      = tr @ replicate (Suc (Suc k)) LocateNextMinMax" by simp
  moreover have "candidate C ci ratio (nextCandidate C ci ratio m) (Suc k)
      = candidate C ci ratio m (Suc (Suc k))" by simp
  ultimately show ?case by (simp only:)
qed

lemma visual_loop_Some:
  assumes "visual_loop C si ci ratio t m tr = Some y"
  shows "\<exists>k. (\<forall>i<k. visual_body C si ci t (candidate C ci ratio m (Suc i)) = Continue)
           \<and> visual_body C si ci t (candidate C ci ratio m (Suc k)) \<noteq> Continue
           \<and> y = (visual_body C si ci t (candidate C ci ratio m (Suc k)),
                  candidate C ci ratio m (Suc k),
                  tr @ replicate (Suc k) LocateNextMinMax)"
  using assms
proof (induction C si ci ratio t m tr y rule: visual_loop.raw_induct [rotated 1, consumes 1])
  case (1 loop C si ci ratio t m tr y)
  show ?case
  proof (cases "visual_body C si ci t (nextCandidate C ci ratio m) = Continue")
    case True
    with 1(2) have "loop C si ci ratio t (nextCandidate C ci ratio m) (tr @ [LocateNextMinMax]) = Some y"
      by (simp add: Let_def nextCandidate_def)
    from 1(1) [OF this] obtain k where
      k: "(\<forall>i<k. visual_body C si ci t (candidate C ci ratio (nextCandidate C ci ratio m) (Suc i)) = Continue)
         \<and> visual_body C si ci t (candidate C ci ratio (nextCandidate C ci ratio m) (Suc k)) \<noteq> Continue
         \<and> y = (visual_body C si ci t (candidate C ci ratio (nextCandidate C ci ratio m) (Suc k)),
                candidate C ci ratio (nextCandidate C ci ratio m) (Suc k),
                (tr @ [LocateNextMinMax]) @ replicate (Suc k) LocateNextMinMax)" ..
    have "\<forall>i<Suc k. visual_body C si ci t (candidate C ci ratio m (Suc i)) = Continue"
    proof (intro allI impI)
      fix i assume "i < Suc k"
      then show "visual_body C si ci t (candidate C ci ratio m (Suc i)) = Continue"
        using True k by (cases i) simp_all
    qed
    with k show ?thesis
      by (intro exI [of _ "Suc k"]) simp
  next
    case False
    with 1(2) show ?thesis
      by (intro exI [of _ 0]) (simp add: Let_def nextCandidate_def)
  qed
qed


lemma inBoundsFlags_map:
  "inBoundsFlags C si ci ratio m k =
     map (\<lambda>i. inBounds C si (candidate C ci ratio m (Suc i))) [0 ..< k]"
proof (induction k arbitrary: m)
  case 0
  then show ?case by simp
next
  case (Suc k)
  show ?case
    by (simp only: inBoundsFlags.simps Suc.IH map_upt_Suc candidate.simps)
qed

lemma text_loop_step:
  "text_loop C si ci ratio ident m rc tr =
     (if \<not> inBounds C si (nextCandidate C ci ratio m)
      then text_loop C si ci ratio ident (nextCandidate C ci ratio m) rc (tr @ [LocateNextMinMax])
      else if string_find (getUTF8Text C (fullSizeColor si)) ident \<noteq> None
      then Some (Break True, nextCandidate C ci ratio m,
                 tr @ [LocateNextMinMax, GetUTF8Text (fullSizeColor si)])
      else if rc + 1 \<ge> 100
      then Some (Return, nextCandidate C ci ratio m,
                 tr @ [LocateNextMinMax, GetUTF8Text (fullSizeColor si)])
      else text_loop C si ci ratio ident (nextCandidate C ci ratio m) (rc + 1)
             (tr @ [LocateNextMinMax, GetUTF8Text (fullSizeColor si)]))"
  by (subst text_loop.simps) (simp add: Let_def nextCandidate_def inBounds_def)

lemma text_loop_cap:
  assumes "string_find (getUTF8Text C (fullSizeColor si)) ident = None"
    and "0 \<le> rc"
    and "int (count_list (inBoundsFlags C si ci ratio m k) True) = 99 - rc"
    and "inBounds C si (candidate C ci ratio m (Suc k))"
  shows "text_loop C si ci ratio ident m rc tr =
           Some (Return, candidate C ci ratio m (Suc k),
                 tr @ text_events (fullSizeColor si) (inBoundsFlags C si ci ratio m k @ [True]))"
  using assms(2-4)
proof (induction k arbitrary: m rc tr)
  case 0
  then have "rc = 99" by simp
  with 0 show ?case by (subst text_loop_step) (simp add: assms(1))
next
  case (Suc k)
  let ?m = "nextCandidate C ci ratio m"
  from Suc.prems(3) have last: "inBounds C si (candidate C ci ratio ?m (Suc k))" by simp
  show ?case
  proof (cases "inBounds C si ?m")
    case True
    with Suc.prems(2) have cnt: "int (count_list (inBoundsFlags C si ci ratio ?m k) True) = 99 - (rc + 1)"
      by simp
    then have small: "\<not> rc + 1 \<ge> 100" by linarith
    from Suc.prems(1) have nonneg: "0 \<le> rc + 1" by simp
    have "text_loop C si ci ratio ident m rc tr =
            text_loop C si ci ratio ident ?m (rc + 1)
              (tr @ [LocateNextMinMax, GetUTF8Text (fullSizeColor si)])"
      by (subst text_loop_step) (simp only: True small assms(1) simp_thms if_True if_False)
    also note Suc.IH [OF nonneg cnt last]
    finally show ?thesis using True by simp
  next
    case False
    with Suc.prems(2) have cnt: "int (count_list (inBoundsFlags C si ci ratio ?m k) True) = 99 - rc"
      by simp
    have "text_loop C si ci ratio ident m rc tr =
            text_loop C si ci ratio ident ?m rc (tr @ [LocateNextMinMax])"
      by (subst text_loop_step) (simp only: False simp_thms if_True)
    also note Suc.IH [OF Suc.prems(1) cnt last]
    finally show ?thesis using False by simp
  qed
qed

lemma text_loop_Some:
  assumes "text_loop C si ci ratio ident m rc tr = Some y"
  shows "\<exists>k. inBounds C si (candidate C ci ratio m (Suc k))
           \<and> snd y = (candidate C ci ratio m (Suc k),
                  tr @ text_events (fullSizeColor si) (inBoundsFlags C si ci ratio m k @ [True]))
           \<and> (if string_find (getUTF8Text C (fullSizeColor si)) ident \<noteq> None
               then fst y = Break True \<and> count_list (inBoundsFlags C si ci ratio m k) True = 0
               else fst y = Return
                    \<and> (rc < 100 \<longrightarrow> int (count_list (inBoundsFlags C si ci ratio m k) True) = 99 - rc))"
  using assms
proof (induction C si ci ratio ident m rc tr y rule: text_loop.raw_induct [rotated 1, consumes 1])
  case (1 loop C si ci ratio ident m rc tr y)
  let ?m = "nextCandidate C ci ratio m"
  let ?img = "fullSizeColor si"
  let ?found = "string_find (getUTF8Text C ?img) ident \<noteq> None"
  from 1(2) have step:
    "(if \<not> inBounds C si ?m then loop C si ci ratio ident ?m rc (tr @ [LocateNextMinMax])
      else if ?found then Some (Break True, ?m, tr @ [LocateNextMinMax, GetUTF8Text ?img])
      else if rc + 1 \<ge> 100 then Some (Return, ?m, tr @ [LocateNextMinMax, GetUTF8Text ?img])
      else loop C si ci ratio ident ?m (rc + 1) (tr @ [LocateNextMinMax, GetUTF8Text ?img]))
     = Some y"
    by (simp add: Let_def nextCandidate_def inBounds_def cong: if_cong)
  show ?case
  proof (cases "inBounds C si ?m")
    case False
    with step have "loop C si ci ratio ident ?m rc (tr @ [LocateNextMinMax]) = Some y" by simp
    from 1(1) [OF this] obtain k where
      k: "inBounds C si (candidate C ci ratio ?m (Suc k))
           \<and> snd y = (candidate C ci ratio ?m (Suc k),
                  (tr @ [LocateNextMinMax]) @ text_events ?img (inBoundsFlags C si ci ratio ?m k @ [True]))
           \<and> (if ?found
               then fst y = Break True \<and> count_list (inBoundsFlags C si ci ratio ?m k) True = 0
               else fst y = Return
                    \<and> (rc < 100 \<longrightarrow> int (count_list (inBoundsFlags C si ci ratio ?m k) True) = 99 - rc))" ..
    with False show ?thesis
      by (intro exI [of _ "Suc k"]) (simp split: if_splits)
  next
    case True
    note inb = this
    show ?thesis
    proof (cases ?found)
      case True
      with inb step show ?thesis by (intro exI [of _ 0]) auto
    next
      case False
      note nf = this
      show ?thesis
      proof (cases "rc + 1 \<ge> 100")
        case True
        with inb nf step show ?thesis by (intro exI [of _ 0]) auto
      next
        case False
        with inb nf step
        have "loop C si ci ratio ident ?m (rc + 1) (tr @ [LocateNextMinMax, GetUTF8Text ?img]) = Some y"
          by simp
        from 1(1) [OF this] obtain k where
          k: "inBounds C si (candidate C ci ratio ?m (Suc k))
           \<and> snd y = (candidate C ci ratio ?m (Suc k),
                  (tr @ [LocateNextMinMax, GetUTF8Text ?img])
                    @ text_events ?img (inBoundsFlags C si ci ratio ?m k @ [True]))
           \<and> (if ?found
               then fst y = Break True \<and> count_list (inBoundsFlags C si ci ratio ?m k) True = 0
               else fst y = Return
                    \<and> (rc + 1 < 100 \<longrightarrow> int (count_list (inBoundsFlags C si ci ratio ?m k) True) = 99 - (rc + 1)))" ..
        with inb nf False show ?thesis
          by (intro exI [of _ "Suc k"]) (simp split: if_splits)
      qed
    qed
  qed
qed

section \<open>The two matchers, path by path\<close>

lemma prepared_fields:
  "trace (prepared C d b) = trace d @ [ProcessBitmap b, MatchTemplate]"
  "detectionRoi (prepared C d b) = detectionRoi d"
  "scaleRatio (prepared C d b) = scaleRatio d"
  "detectionResult (prepared C d b) = detectionResult d"
  "screenImage (prepared C d b) = setCropping C (screenImage d) (detectionRoi d)"
  "conditionImage (prepared C d b) = processBitmap C b (scaleRatio d)"
  by (simp_all add: prepared_def cropped_def computeSurface_def Let_def)

lemma match_threshold_invalid:
  "\<not> roiValid C d \<Longrightarrow> match_threshold C d b t = Some (clearResults d)"
  by (auto simp add: match_threshold_def roiValid_def)

lemma match_text_invalid:
  "\<not> roiValid C d \<Longrightarrow> match_text C d b ident = Some (clearResults d)"
  by (auto simp add: match_text_def roiValid_def)

lemma match_threshold_too_large:
  "roiValid C d \<Longrightarrow> \<not> templateFits C d b \<Longrightarrow>
     match_threshold C d b t = Some (clearResults (cropped C d b))"
  by (simp add: match_threshold_def roiValid_def templateFits_def cropped_def Let_def)

lemma match_text_too_large:
  "roiValid C d \<Longrightarrow> \<not> templateFits C d b \<Longrightarrow>
     match_text C d b ident = Some (clearResults (cropped C d b))"
  by (simp add: match_text_def roiValid_def templateFits_def cropped_def Let_def)

lemma match_threshold_search:
  "roiValid C d \<Longrightarrow> templateFits C d b \<Longrightarrow>
     match_threshold C d b t =
       map_option
         (\<lambda>(v, m, tr). reportResults C ((prepared C d b)\<lparr>matchingResults := m, trace := tr\<rparr>)
                          (v = Break True))
         (visual_loop C (screenImage (prepared C d b)) (conditionImage (prepared C d b))
            (scaleRatio d) t (matchingResults (prepared C d b)) (trace (prepared C d b)))"
  by (simp add: match_threshold_def roiValid_def templateFits_def cropped_def prepared_def
      Let_def computeSurface_def)

lemma match_text_search:
  "roiValid C d \<Longrightarrow> templateFits C d b \<Longrightarrow>
     match_text C d b ident =
       map_option
         (\<lambda>(v, m, tr).
            if v = Return then clearResults ((prepared C d b)\<lparr>matchingResults := m, trace := tr\<rparr>)
            else reportResults C ((prepared C d b)\<lparr>matchingResults := m, trace := tr\<rparr>)
                   (v = Break True))
         (text_loop C (screenImage (prepared C d b)) (conditionImage (prepared C d b))
            (scaleRatio d) ident (matchingResults (prepared C d b)) 0 (trace (prepared C d b)))"
  by (simp add: match_text_def roiValid_def templateFits_def cropped_def prepared_def
      Let_def computeSurface_def cong: if_cong)

lemma visual_returns:
  assumes "roiValid C d" "templateFits C d b"
    and "\<forall>i<k. visualVerdict C d b t (Suc i) = Continue"
    and "visualVerdict C d b t (Suc k) \<noteq> Continue"
  shows "match_threshold C d b t = Some (visualEnd C d b t (Suc k))"
proof -
  from assms(3,4) have
    "visual_loop C (screenImage (prepared C d b)) (conditionImage (prepared C d b))
        (scaleRatio d) t (matchingResults (prepared C d b)) (trace (prepared C d b))
     = Some (visualVerdict C d b t (Suc k), searchCandidate C d b (Suc k),
             trace (prepared C d b) @ replicate (Suc k) LocateNextMinMax)"
    unfolding visualVerdict_def searchCandidate_def by (rule visual_loop_decides)
  with assms(1,2) show ?thesis
    by (simp add: match_threshold_search visualEnd_def)
qed

lemma visual_returned:
  assumes "roiValid C d" "templateFits C d b"
    and "match_threshold C d b t = Some d'"
  shows "\<exists>k. (\<forall>i<k. visualVerdict C d b t (Suc i) = Continue)
           \<and> visualVerdict C d b t (Suc k) \<noteq> Continue
           \<and> d' = visualEnd C d b t (Suc k)"
proof -
  from assms obtain y where
    y: "visual_loop C (screenImage (prepared C d b)) (conditionImage (prepared C d b))
          (scaleRatio d) t (matchingResults (prepared C d b)) (trace (prepared C d b)) = Some y"
    and d': "d' = (case y of (v, m, tr) \<Rightarrow>
               reportResults C ((prepared C d b)\<lparr>matchingResults := m, trace := tr\<rparr>)
                 (v = Break True))"
    by (auto simp add: match_threshold_search)
  from visual_loop_Some [OF y] obtain k where
    k: "(\<forall>i<k. visualVerdict C d b t (Suc i) = Continue)
        \<and> visualVerdict C d b t (Suc k) \<noteq> Continue
        \<and> y = (visualVerdict C d b t (Suc k), searchCandidate C d b (Suc k),
               trace (prepared C d b) @ replicate (Suc k) LocateNextMinMax)"
    unfolding visualVerdict_def searchCandidate_def ..
  with d' have "d' = visualEnd C d b t (Suc k)"
    by (simp add: visualEnd_def)
  with k show ?thesis by blast
qed


lemma text_loop_found_flags:
  assumes "string_find (getUTF8Text C (fullSizeColor si)) ident \<noteq> None"
    and "count_list (inBoundsFlags C si ci ratio m k) True = 0"
    and "inBounds C si (candidate C ci ratio m (Suc k))"
  shows "text_loop C si ci ratio ident m rc tr =
           Some (Break True, candidate C ci ratio m (Suc k),
                 tr @ text_events (fullSizeColor si) (inBoundsFlags C si ci ratio m k @ [True]))"
  using assms(2,3)
proof (induction k arbitrary: m tr)
  case 0
  then show ?case by (subst text_loop_step) (simp add: assms(1))
next
  case (Suc k)
  let ?m = "nextCandidate C ci ratio m"
  from Suc.prems(1) have first: "\<not> inBounds C si ?m"
    and rest: "count_list (inBoundsFlags C si ci ratio ?m k) True = 0"
    by (simp_all split: if_splits)
  from Suc.prems(2) have last: "inBounds C si (candidate C ci ratio ?m (Suc k))" by simp
  have "text_loop C si ci ratio ident m rc tr =
          text_loop C si ci ratio ident ?m rc (tr @ [LocateNextMinMax])"
    by (subst text_loop_step) (simp only: first simp_thms if_True)
  also note Suc.IH [OF rest last]
  finally show ?case using first by simp
qed

lemma text_events_ocrImages:
  "ocrImages (text_events img bs :: 'b event list) = replicate (count_list bs True) img"
  by (induction bs) (simp_all add: ocrImages_def map_filter_simps)

lemma text_events_outcomes: "outcomes (text_events img bs :: 'b event list) = []"
  by (induction bs) (simp_all add: outcomes_def map_filter_simps)

lemma text_events_extractions:
  "count_list (text_events img bs :: 'b event list) LocateNextMinMax = length bs"
  by (induction bs) simp_all

lemma outcomes_append: "outcomes (xs @ ys) = outcomes xs @ outcomes ys"
  by (simp add: outcomes_def List.map_filter_def)

lemma ocrImages_append: "ocrImages (xs @ ys) = ocrImages xs @ ocrImages ys"
  by (simp add: ocrImages_def List.map_filter_def)

lemma searchFlags_inBoundsFlags:
  "inBoundsFlags C (screenImage (prepared C d b)) (conditionImage (prepared C d b)) (scaleRatio d)
     (matchingResults (prepared C d b)) k = searchFlags C d b k"
  by (simp add: inBoundsFlags_map searchFlags_def searchInBounds_def searchCandidate_def)

lemma count_flags_none:
  "count_list (searchFlags C d b k) True = 0 \<longleftrightarrow> (\<forall>i<k. \<not> searchInBounds C d b (Suc i))"
  by (auto simp add: searchFlags_def count_list_0_iff)

lemma text_returns:
  assumes "roiValid C d" "templateFits C d b" and "textStops C d b ident k"
  shows "match_text C d b ident = Some (textEnd C d b ident k)"
proof -
  let ?P = "prepared C d b"
  let ?img = "fullSizeColor (screenImage ?P)"
  from assms(3) have inb: "inBounds C (screenImage ?P)
      (candidate C (conditionImage ?P) (scaleRatio d) (matchingResults ?P) (Suc k))"
    by (simp add: textStops_def searchInBounds_def searchCandidate_def)
  have loop: "text_loop C (screenImage ?P) (conditionImage ?P) (scaleRatio d) ident
        (matchingResults ?P) 0 (trace ?P)
      = Some (if string_find (frameText C d b) ident \<noteq> None then Break True else Return,
              searchCandidate C d b (Suc k),
              trace ?P @ text_events ?img (searchFlags C d b k @ [True]))"
  proof (cases "string_find (frameText C d b) ident \<noteq> None")
    case True
    then have found: "string_find (getUTF8Text C ?img) ident \<noteq> None"
      by (simp add: frameText_def)
    from True assms(3)
    have cnt: "count_list (inBoundsFlags C (screenImage ?P) (conditionImage ?P) (scaleRatio d)
        (matchingResults ?P) k) True = 0"
      by (simp add: textStops_def searchFlags_inBoundsFlags)
    from text_loop_found_flags [OF found cnt inb, where rc = 0 and tr = "trace ?P"] True
    show ?thesis by (simp add: searchFlags_inBoundsFlags searchCandidate_def)
  next
    case False
    then have nf: "string_find (getUTF8Text C ?img) ident = None"
      by (simp add: frameText_def)
    from False assms(3)
    have cnt: "int (count_list (inBoundsFlags C (screenImage ?P) (conditionImage ?P) (scaleRatio d)
        (matchingResults ?P) k) True) = 99 - 0"
      by (simp add: textStops_def searchFlags_inBoundsFlags)
    have z: "(0::int) \<le> 0" by simp
    from text_loop_cap [OF nf z cnt inb, of "trace ?P"] False
    show ?thesis by (simp add: searchFlags_inBoundsFlags searchCandidate_def)
  qed
  from assms(1,2) show ?thesis
    by (simp add: match_text_search loop textEnd_def Let_def)
qed

lemma text_returned:
  assumes "roiValid C d" "templateFits C d b"
    and "match_text C d b ident = Some d'"
  shows "\<exists>k. textStops C d b ident k \<and> d' = textEnd C d b ident k"
proof -
  let ?P = "prepared C d b"
  let ?img = "fullSizeColor (screenImage ?P)"
  from assms obtain y where
    y: "text_loop C (screenImage ?P) (conditionImage ?P) (scaleRatio d) ident
          (matchingResults ?P) 0 (trace ?P) = Some y"
    and d': "d' = (if fst y = Return
               then clearResults (?P\<lparr>matchingResults := fst (snd y), trace := snd (snd y)\<rparr>)
               else reportResults C (?P\<lparr>matchingResults := fst (snd y), trace := snd (snd y)\<rparr>)
                      (fst y = Break True))"
    by (auto simp add: match_text_search)
  from text_loop_Some [OF y] obtain k where
    k: "inBounds C (screenImage ?P)
          (candidate C (conditionImage ?P) (scaleRatio d) (matchingResults ?P) (Suc k))
        \<and> snd y = (candidate C (conditionImage ?P) (scaleRatio d) (matchingResults ?P) (Suc k),
             trace ?P @ text_events ?img
               (inBoundsFlags C (screenImage ?P) (conditionImage ?P) (scaleRatio d)
                  (matchingResults ?P) k @ [True]))
        \<and> (if string_find (getUTF8Text C ?img) ident \<noteq> None
            then fst y = Break True
              \<and> count_list (inBoundsFlags C (screenImage ?P) (conditionImage ?P) (scaleRatio d)
                    (matchingResults ?P) k) True = 0
            else fst y = Return
              \<and> ((0::int) < 100 \<longrightarrow>
                   int (count_list (inBoundsFlags C (screenImage ?P) (conditionImage ?P)
                     (scaleRatio d) (matchingResults ?P) k) True) = 99 - 0))" ..
  then have stops: "textStops C d b ident k"
    by (simp add: textStops_def searchInBounds_def searchCandidate_def frameText_def
        searchFlags_inBoundsFlags split: if_splits)
  from k d' have "d' = textEnd C d b ident k"
    by (simp add: textEnd_def Let_def searchCandidate_def frameText_def
        searchFlags_inBoundsFlags split: if_splits)
  with stops show ?thesis by blast
qed

section \<open>What a call leaves behind\<close>

lemma newEvents_append: "trace d' = trace d @ evs \<Longrightarrow> newEvents d d' = evs"
  by (simp add: newEvents_def)

lemma clearResults_fields:
  "detectionResult (clearResults d) = notFound"
  "trace (clearResults d) = trace d @ [ClearResults]"
  "conditionImage (clearResults d) = conditionImage d"
  "matchingResults (clearResults d) = matchingResults d"
  "screenImage (clearResults d) = screenImage d"
  by (simp_all add: clearResults_def)

lemma reportResults_fields:
  "detectionResult (reportResults C d f) = candidateOutcome C d (matchingResults d) f"
  "trace (reportResults C d f) =
     trace d @ [SetResults f (centerX (candidateOutcome C d (matchingResults d) f))
                  (centerY (candidateOutcome C d (matchingResults d) f)) (maxVal (matchingResults d))]"
  "matchingResults (reportResults C d f) = matchingResults d"
  by (simp_all add: reportResults_def setResults_def candidateOutcome_def)

lemma cropped_trace: "trace (cropped C d b) = trace d @ [ProcessBitmap b]"
  by (simp add: cropped_def)

lemma outcomes_simps:
  "outcomes [] = []"
  "outcomes (ProcessBitmap b # evs) = outcomes evs"
  "outcomes (MatchTemplate # evs) = outcomes evs"
  "outcomes (LocateNextMinMax # evs) = outcomes evs"
  "outcomes (GetUTF8Text img # evs) = outcomes evs"
  "outcomes (ClearResults # evs) = notFound # outcomes evs"
  "outcomes (SetResults f cx cy v # evs) =
     \<lparr>isDetected = f, centerX = cx, centerY = cy, confidence = v\<rparr> # outcomes evs"
  by (simp_all add: outcomes_def List.map_filter_def)

lemma outcomes_replicate_locate: "outcomes (replicate k LocateNextMinMax) = []"
  by (induction k) (simp_all add: outcomes_simps)

lemma ocrImages_simps:
  "ocrImages [] = []"
  "ocrImages (ProcessBitmap b # evs) = ocrImages evs"
  "ocrImages (MatchTemplate # evs) = ocrImages evs"
  "ocrImages (LocateNextMinMax # evs) = ocrImages evs"
  "ocrImages (GetUTF8Text img # evs) = img # ocrImages evs"
  "ocrImages (ClearResults # evs) = ocrImages evs"
  "ocrImages (SetResults f cx cy v # evs) = ocrImages evs"
  by (simp_all add: ocrImages_def List.map_filter_def)

lemma invalid_end:
  "newEvents d (clearResults d) = [ClearResults]"
  by (simp add: clearResults_fields newEvents_append)

lemma too_large_end:
  "newEvents d (clearResults (cropped C d b)) = [ProcessBitmap b, ClearResults]"
  "trace (clearResults (cropped C d b)) = trace d @ [ProcessBitmap b, ClearResults]"
  by (simp_all add: clearResults_fields cropped_trace newEvents_append)

lemma visualEnd_fields:
  "detectionResult (visualEnd C d b t k) =
     candidateOutcome C d (searchCandidate C d b k) (visualVerdict C d b t k = Break True)"
  "matchingResults (visualEnd C d b t k) = searchCandidate C d b k"
  "trace (visualEnd C d b t k) =
     trace d @ [ProcessBitmap b, MatchTemplate] @ replicate k LocateNextMinMax
       @ [SetResults (visualVerdict C d b t k = Break True)
            (centerX (candidateOutcome C d (searchCandidate C d b k) True))
            (centerY (candidateOutcome C d (searchCandidate C d b k) True))
            (maxVal (searchCandidate C d b k))]"
  by (simp_all add: visualEnd_def reportResults_fields prepared_fields candidateOutcome_def)

lemma visualEnd_newEvents:
  "newEvents d (visualEnd C d b t k) =
     [ProcessBitmap b, MatchTemplate] @ replicate k LocateNextMinMax
       @ [SetResults (visualVerdict C d b t k = Break True)
            (centerX (candidateOutcome C d (searchCandidate C d b k) True))
            (centerY (candidateOutcome C d (searchCandidate C d b k) True))
            (maxVal (searchCandidate C d b k))]"
  by (rule newEvents_append) (rule visualEnd_fields(3))

lemma visualEnd_outcomes:
  "outcomes (newEvents d (visualEnd C d b t k)) = [detectionResult (visualEnd C d b t k)]"
  by (simp add: visualEnd_fields newEvents_append outcomes_simps outcomes_append
      outcomes_replicate_locate candidateOutcome_def)

lemma count_list_replicate_same: "count_list (replicate k x) x = k"
  by (induction k) simp_all

lemma visualEnd_extractions:
  "count_list (newEvents d (visualEnd C d b t k)) LocateNextMinMax = k"
  by (simp add: visualEnd_fields newEvents_append count_list_append count_list_replicate_same)

lemma textEnd_fields:
  "detectionResult (textEnd C d b ident k) =
     (if string_find (frameText C d b) ident \<noteq> None
      then candidateOutcome C d (searchCandidate C d b (Suc k)) True else notFound)"
  "matchingResults (textEnd C d b ident k) = searchCandidate C d b (Suc k)"
  "trace (textEnd C d b ident k) =
     trace d @ [ProcessBitmap b, MatchTemplate]
       @ text_events (fullSizeColor (screenImage (prepared C d b))) (searchFlags C d b k @ [True])
       @ [if string_find (frameText C d b) ident \<noteq> None
          then SetResults True
                 (centerX (candidateOutcome C d (searchCandidate C d b (Suc k)) True))
                 (centerY (candidateOutcome C d (searchCandidate C d b (Suc k)) True))
                 (maxVal (searchCandidate C d b (Suc k)))
          else ClearResults]"
  by (simp_all add: textEnd_def Let_def reportResults_fields clearResults_fields prepared_fields
      candidateOutcome_def)

lemma textEnd_newEvents:
  "newEvents d (textEnd C d b ident k) =
     [ProcessBitmap b, MatchTemplate]
       @ text_events (fullSizeColor (screenImage (prepared C d b))) (searchFlags C d b k @ [True])
       @ [if string_find (frameText C d b) ident \<noteq> None
          then SetResults True
                 (centerX (candidateOutcome C d (searchCandidate C d b (Suc k)) True))
                 (centerY (candidateOutcome C d (searchCandidate C d b (Suc k)) True))
                 (maxVal (searchCandidate C d b (Suc k)))
          else ClearResults]"
  by (rule newEvents_append) (rule textEnd_fields(3))

lemma textEnd_outcomes:
  "outcomes (newEvents d (textEnd C d b ident k)) = [detectionResult (textEnd C d b ident k)]"
  by (simp add: textEnd_fields newEvents_append outcomes_simps outcomes_append
      text_events_outcomes candidateOutcome_def)

lemma textEnd_ocrImages:
  "ocrImages (newEvents d (textEnd C d b ident k)) =
     replicate (Suc (count_list (searchFlags C d b k) True))
       (fullSizeColor (screenImage (prepared C d b)))"
  by (simp add: textEnd_fields newEvents_append ocrImages_simps ocrImages_append
      text_events_ocrImages replicate_append_same)

lemma string_find_sublist: "string_find s t \<noteq> None \<longleftrightarrow> sublist t s"
  by (induction s) (auto simp add: sublist_Cons_right)

text \<open>
  C7. For a call in visual or in text mode whose region of interest is out of the frame
  bounds, in the full-size or in the scaled space, the call returns with the outcome cleared.
  It adds nothing to the trace but the clearing: the template is not processed and nothing
  is matched, and the condition image and the matching results are as before the call.
\<close>

theorem invalid_roi_clears_outcome:
  assumes "\<not> isFullSizeContains C (screenImage d) (fullSize (detectionRoi d))
           \<or> \<not> isScaledContains C (screenImage d) (scaled (detectionRoi d))"
  shows "match_threshold C d b t = Some (clearResults d)
       \<and> match_text C d b ident = Some (clearResults d)
       \<and> detectionResult (clearResults d) = notFound
       \<and> newEvents d (clearResults d) = [ClearResults]
       \<and> conditionImage (clearResults d) = conditionImage d
       \<and> matchingResults (clearResults d) = matchingResults d"
proof -
  from assms have "\<not> roiValid C d" by (auto simp add: roiValid_def)
  then show ?thesis
    by (simp add: match_threshold_invalid match_text_invalid clearResults_fields invalid_end)
qed

lemma cleared_without_matching:
  assumes "d' = clearResults d \<or> d' = clearResults (cropped C d b)"
  shows "detectionResult d' = notFound \<and> outcomes (newEvents d d') = [notFound]
       \<and> MatchTemplate \<notin> set (newEvents d d') \<and> LocateNextMinMax \<notin> set (newEvents d d')
       \<and> ocrImages (newEvents d d') = []"
  using assms
  by (auto simp add: clearResults_fields invalid_end too_large_end outcomes_simps ocrImages_simps)

text \<open>
  C6. For a call in visual or in text mode whose template, once scaled, is not contained in
  the cropped search area, the call returns with the outcome cleared to the not-found value,
  written once, whatever the pixels are. The correlation engine is not invoked and no
  candidate is extracted (in text mode no text is read either).
\<close>

theorem template_too_large_clears_outcome:
  assumes "\<not> isCroppedScaledContains C (setCropping C (screenImage d) (detectionRoi d))
               (scaledSize (processBitmap C b (scaleRatio d)))"
  shows "(\<exists>d'. match_threshold C d b t = Some d'
            \<and> detectionResult d' = notFound \<and> outcomes (newEvents d d') = [notFound]
            \<and> MatchTemplate \<notin> set (newEvents d d') \<and> LocateNextMinMax \<notin> set (newEvents d d'))
       \<and> (\<exists>d'. match_text C d b ident = Some d'
            \<and> detectionResult d' = notFound \<and> outcomes (newEvents d d') = [notFound]
            \<and> MatchTemplate \<notin> set (newEvents d d') \<and> LocateNextMinMax \<notin> set (newEvents d d')
            \<and> ocrImages (newEvents d d') = [])"
proof -
  from assms have nofit: "\<not> templateFits C d b" by (simp add: templateFits_def)
  let ?e = "if roiValid C d then clearResults (cropped C d b) else clearResults d"
  have e: "?e = clearResults d \<or> ?e = clearResults (cropped C d b)" by simp
  from nofit have "match_threshold C d b t = Some ?e" "match_text C d b ident = Some ?e"
    by (simp_all add: match_threshold_invalid match_threshold_too_large
        match_text_invalid match_text_too_large)
  with cleared_without_matching [OF e] show ?thesis by blast
qed

text \<open>
  C4. In the visual loop an extracted candidate that is out of the scaled frame bounds is
  dropped and the loop goes on with the next extraction, with nothing else recorded; an
  in-bounds candidate whose score does not clear the floor ends the loop with not-found at
  once. So a call whose first \<open>k\<close> candidates are out of bounds and whose next candidate is
  in bounds and below the floor returns not found, on that candidate, after exactly
  \<open>k + 1\<close> extractions.
\<close>

theorem visual_search_skips_and_stops:
  "(\<not> inBounds C si (nextCandidate C ci ratio m) \<longrightarrow>
      visual_loop C si ci ratio t m tr =
        visual_loop C si ci ratio t (nextCandidate C ci ratio m) (tr @ [LocateNextMinMax]))
   \<and> (inBounds C si (nextCandidate C ci ratio m)
        \<and> \<not> isResultAboveThreshold (nextCandidate C ci ratio m) t \<longrightarrow>
      visual_loop C si ci ratio t m tr =
        Some (Break False, nextCandidate C ci ratio m, tr @ [LocateNextMinMax]))
   \<and> (roiValid C d \<and> templateFits C d b
        \<and> (\<forall>i<k. \<not> searchInBounds C d b (Suc i)) \<and> searchInBounds C d b (Suc k)
        \<and> \<not> isResultAboveThreshold (searchCandidate C d b (Suc k)) t \<longrightarrow>
      (\<exists>d'. match_threshold C d b t = Some d'
          \<and> \<not> isDetected (detectionResult d')
          \<and> matchingResults d' = searchCandidate C d b (Suc k)
          \<and> count_list (newEvents d d') LocateNextMinMax = Suc k))"
proof (intro conjI impI)
  assume "\<not> inBounds C si (nextCandidate C ci ratio m)"
  then have "visual_body C si ci t (nextCandidate C ci ratio m) = Continue"
    by (simp add: visual_body_def inBounds_def)
  then show "visual_loop C si ci ratio t m tr =
        visual_loop C si ci ratio t (nextCandidate C ci ratio m) (tr @ [LocateNextMinMax])"
    by (subst visual_loop_step) (simp only: simp_thms if_True)
next
  assume "inBounds C si (nextCandidate C ci ratio m)
        \<and> \<not> isResultAboveThreshold (nextCandidate C ci ratio m) t"
  then have "visual_body C si ci t (nextCandidate C ci ratio m) = Break False"
    by (simp add: visual_body_def inBounds_def)
  then show "visual_loop C si ci ratio t m tr =
        Some (Break False, nextCandidate C ci ratio m, tr @ [LocateNextMinMax])"
    by (subst visual_loop_step) simp
next
  assume a: "roiValid C d \<and> templateFits C d b
        \<and> (\<forall>i<k. \<not> searchInBounds C d b (Suc i)) \<and> searchInBounds C d b (Suc k)
        \<and> \<not> isResultAboveThreshold (searchCandidate C d b (Suc k)) t"
  then have skip: "\<forall>i<k. visualVerdict C d b t (Suc i) = Continue"
    by (simp add: visualVerdict_def visual_body_def searchInBounds_def inBounds_def)
  from a have stop: "visualVerdict C d b t (Suc k) = Break False"
    by (simp add: visualVerdict_def visual_body_def searchInBounds_def inBounds_def)
  then have "visualVerdict C d b t (Suc k) \<noteq> Continue" by simp
  with a skip have "match_threshold C d b t = Some (visualEnd C d b t (Suc k))"
    by (simp add: visual_returns)
  moreover have "\<not> isDetected (detectionResult (visualEnd C d b t (Suc k)))"
    by (simp add: visualEnd_fields stop candidateOutcome_def)
  ultimately show "\<exists>d'. match_threshold C d b t = Some d'
          \<and> \<not> isDetected (detectionResult d')
          \<and> matchingResults d' = searchCandidate C d b (Suc k)
          \<and> count_list (newEvents d d') LocateNextMinMax = Suc k"
    by (simp add: visualEnd_fields(2) visualEnd_extractions)
qed

text \<open>
  What the visual loop accepts: an in-bounds candidate whose score is greater than the
  rounded \<open>(100 - t) / 100\<close>, provided the colour distance between the screen's cropped
  full-size colour view and the template's full-size colour is less than \<open>t\<close>. The
  distance does not depend on the candidate. Threshold 0 accepts no candidate.
\<close>

lemma visual_acceptance:
  assumes "inBounds C si m"
  shows "(visual_body C si ci t m = Break True \<longleftrightarrow>
            maxVal m > dbl (real_of_int (100 - t) / 100)
            \<and> getColorDiff C (croppedFullSizeColor si) (fullSizeColor ci) < real_of_int t)
       \<and> (t = 0 \<longrightarrow> visual_body C si ci t m \<noteq> Break True)
       \<and> (t = 100 \<longrightarrow>
            (visual_body C si ci t m = Break True \<longleftrightarrow>
               maxVal m > 0 \<and> getColorDiff C (croppedFullSizeColor si) (fullSizeColor ci) < 100))"
proof -
  have iff: "visual_body C si ci t m = Break True \<longleftrightarrow>
            maxVal m > dbl (real_of_int (100 - t) / 100)
            \<and> getColorDiff C (croppedFullSizeColor si) (fullSizeColor ci) < real_of_int t"
    using assms by (simp add: visual_body_def inBounds_def isResultAboveThreshold_def)
  moreover have "t = 0 \<longrightarrow> visual_body C si ci t m \<noteq> Break True"
    using iff getColorDiff_nonneg [of C "croppedFullSizeColor si" "fullSizeColor ci"]
    by auto
  moreover have "t = 100 \<longrightarrow>
            (visual_body C si ci t m = Break True \<longleftrightarrow>
               maxVal m > 0 \<and> getColorDiff C (croppedFullSizeColor si) (fullSizeColor ci) < 100)"
    using iff by (auto simp add: dbl_zero)
  ultimately show ?thesis by blast
qed

lemma visual_stop_flag:
  "visual_body C si ci t m \<noteq> Continue \<Longrightarrow>
     (visual_body C si ci t m = Break True) = isResultAboveThreshold m t"
  by (simp add: visual_body_def split: if_splits)

lemma string_find_None: "string_find s t = None \<longleftrightarrow> \<not> sublist t s"
  using string_find_sublist [of s t] by blast

lemma string_find_Some: "(\<exists>y. string_find s t = Some y) \<longleftrightarrow> sublist t s"
  using string_find_sublist [of s t] by auto

lemma match_threshold_rejected:
  "\<not> (roiValid C d \<and> templateFits C d b) \<Longrightarrow>
     match_threshold C d b t =
       Some (if roiValid C d then clearResults (cropped C d b) else clearResults d)"
  by (simp add: match_threshold_invalid match_threshold_too_large)

lemma match_text_rejected:
  "\<not> (roiValid C d \<and> templateFits C d b) \<Longrightarrow>
     match_text C d b ident =
       Some (if roiValid C d then clearResults (cropped C d b) else clearResults d)"
  by (simp add: match_text_invalid match_text_too_large)

lemma visual_first_decision:
  assumes "\<exists>k. visualVerdict C d b t (Suc k) \<noteq> Continue"
  shows "\<exists>k. (\<forall>i<k. visualVerdict C d b t (Suc i) = Continue)
            \<and> visualVerdict C d b t (Suc k) \<noteq> Continue"
proof -
  let ?P = "\<lambda>k. visualVerdict C d b t (Suc k) \<noteq> Continue"
  from assms have "?P (LEAST k. ?P k)" by (rule LeastI_ex)
  moreover have "\<forall>i<(LEAST k. ?P k). \<not> ?P i"
    using not_less_Least by blast
  ultimately show ?thesis by blast
qed

lemma match_threshold_returns_iff:
  "match_threshold C d b t \<noteq> None \<longleftrightarrow>
     \<not> roiValid C d \<or> \<not> templateFits C d b \<or> (\<exists>k. visualVerdict C d b t (Suc k) \<noteq> Continue)"
proof (cases "roiValid C d \<and> templateFits C d b")
  case False
  with match_threshold_rejected [OF False, of t] show ?thesis
    by auto
next
  case True
  show ?thesis
  proof
    assume "match_threshold C d b t \<noteq> None"
    then obtain d' where "match_threshold C d b t = Some d'" by blast
    with True visual_returned [of C d b t d'] show
      "\<not> roiValid C d \<or> \<not> templateFits C d b \<or> (\<exists>k. visualVerdict C d b t (Suc k) \<noteq> Continue)"
      by blast
  next
    assume "\<not> roiValid C d \<or> \<not> templateFits C d b \<or> (\<exists>k. visualVerdict C d b t (Suc k) \<noteq> Continue)"
    with True have "\<exists>k. visualVerdict C d b t (Suc k) \<noteq> Continue" by blast
    from visual_first_decision [OF this] obtain k where
      "\<forall>i<k. visualVerdict C d b t (Suc i) = Continue" "visualVerdict C d b t (Suc k) \<noteq> Continue"
      by blast
    with True show "match_threshold C d b t \<noteq> None"
      by (simp add: visual_returns)
  qed
qed

lemma match_text_returns_iff:
  "match_text C d b ident \<noteq> None \<longleftrightarrow>
     \<not> roiValid C d \<or> \<not> templateFits C d b \<or> (\<exists>k. textStops C d b ident k)"
proof (cases "roiValid C d \<and> templateFits C d b")
  case False
  with match_text_rejected [OF False, of ident] show ?thesis
    by auto
next
  case True
  show ?thesis
  proof
    assume "match_text C d b ident \<noteq> None"
    then obtain d' where "match_text C d b ident = Some d'" by blast
    with True text_returned [of C d b ident d'] show
      "\<not> roiValid C d \<or> \<not> templateFits C d b \<or> (\<exists>k. textStops C d b ident k)"
      by blast
  next
    assume "\<not> roiValid C d \<or> \<not> templateFits C d b \<or> (\<exists>k. textStops C d b ident k)"
    with True obtain k where "textStops C d b ident k" by blast
    with True show "match_text C d b ident \<noteq> None"
      by (simp add: text_returns)
  qed
qed

lemma match_threshold_outcome:
  assumes "match_threshold C d b t = Some d'"
  shows "trace d' = trace d @ newEvents d d' \<and> outcomes (newEvents d d') = [detectionResult d']
       \<and> detectionResult d' =
           (if roiValid C d \<and> templateFits C d b
            then candidateOutcome C d (matchingResults d')
                   (isResultAboveThreshold (matchingResults d') t)
            else notFound)
       \<and> (roiValid C d \<and> templateFits C d b \<longrightarrow>
            (\<exists>k. (\<forall>i<k. visualVerdict C d b t (Suc i) = Continue)
                \<and> visualVerdict C d b t (Suc k) \<noteq> Continue
                \<and> matchingResults d' = searchCandidate C d b (Suc k)))"
proof (cases "roiValid C d \<and> templateFits C d b")
  case False
  with assms match_threshold_rejected [OF False, of t]
  have "d' = clearResults d \<or> d' = clearResults (cropped C d b)"
    by (auto split: if_splits)
  with False show ?thesis
    by (auto simp add: clearResults_fields invalid_end too_large_end outcomes_simps cropped_trace)
next
  case True
  with assms visual_returned [of C d b t d'] obtain k where
    k: "\<forall>i<k. visualVerdict C d b t (Suc i) = Continue"
      "visualVerdict C d b t (Suc k) \<noteq> Continue" "d' = visualEnd C d b t (Suc k)"
    by blast
  from k(2) have "(visualVerdict C d b t (Suc k) = Break True)
      = isResultAboveThreshold (searchCandidate C d b (Suc k)) t"
    unfolding visualVerdict_def by (rule visual_stop_flag)
  with True k(3) have "trace d' = trace d @ newEvents d d'
      \<and> outcomes (newEvents d d') = [detectionResult d']
      \<and> detectionResult d' =
           (if roiValid C d \<and> templateFits C d b
            then candidateOutcome C d (matchingResults d')
                   (isResultAboveThreshold (matchingResults d') t)
            else notFound)"
    by (simp add: visualEnd_outcomes)
      (simp add: visualEnd_fields visualEnd_newEvents candidateOutcome_def)
  moreover from k have "\<exists>k. (\<forall>i<k. visualVerdict C d b t (Suc i) = Continue)
                \<and> visualVerdict C d b t (Suc k) \<noteq> Continue
                \<and> matchingResults d' = searchCandidate C d b (Suc k)"
    by (auto simp add: visualEnd_fields(2))
  ultimately show ?thesis by blast
qed

lemma match_text_outcome:
  assumes "match_text C d b ident = Some d'"
  shows "trace d' = trace d @ newEvents d d' \<and> outcomes (newEvents d d') = [detectionResult d']
       \<and> detectionResult d' =
           (if roiValid C d \<and> templateFits C d b \<and> sublist ident (frameText C d b)
            then candidateOutcome C d (matchingResults d') True
            else notFound)
       \<and> (roiValid C d \<and> templateFits C d b \<longrightarrow>
            (\<exists>k. textStops C d b ident k \<and> matchingResults d' = searchCandidate C d b (Suc k)))"
proof (cases "roiValid C d \<and> templateFits C d b")
  case False
  with assms match_text_rejected [OF False, of ident]
  have "d' = clearResults d \<or> d' = clearResults (cropped C d b)"
    by (auto split: if_splits)
  with False show ?thesis
    by (auto simp add: clearResults_fields invalid_end too_large_end outcomes_simps cropped_trace)
next
  case True
  with assms text_returned [of C d b ident d'] obtain k where
    k: "textStops C d b ident k" "d' = textEnd C d b ident k"
    by blast
  with True have "trace d' = trace d @ newEvents d d'
      \<and> outcomes (newEvents d d') = [detectionResult d']
      \<and> detectionResult d' =
           (if roiValid C d \<and> templateFits C d b \<and> sublist ident (frameText C d b)
            then candidateOutcome C d (matchingResults d') True
            else notFound)"
    by (simp add: textEnd_outcomes)
      (simp add: textEnd_fields textEnd_newEvents string_find_None string_find_Some)
  moreover from k have
    "\<exists>k. textStops C d b ident k \<and> matchingResults d' = searchCandidate C d b (Suc k)"
    by (auto simp add: textEnd_fields(2))
  ultimately show ?thesis by blast
qed

text \<open>
  C2, as amended. A call in visual or in text mode that returns has written the outcome
  exactly once, and the outcome is the last thing it wrote. When the region of interest is
  invalid or the template too large, and in text mode when the frame's text does not contain
  the target, the outcome is the cleared not-found value. Otherwise every field is set from
  the candidate the search stopped at: in text mode with found = true; in visual mode with
  found = true when the score of that candidate clears the floor and, when it does not, with
  found = false next to the coordinates and the raw score of that candidate, which are not
  zeroed. The call returns exactly when a validity check fails or the search reaches a
  candidate it stops at; otherwise it does not return and writes no outcome.
\<close>

theorem outcome_written_once:
  "(\<forall>d'. match_threshold C d b t = Some d' \<longrightarrow>
      trace d' = trace d @ newEvents d d' \<and> outcomes (newEvents d d') = [detectionResult d']
      \<and> detectionResult d' =
          (if roiValid C d \<and> templateFits C d b
           then candidateOutcome C d (matchingResults d')
                  (isResultAboveThreshold (matchingResults d') t)
           else notFound)
      \<and> (roiValid C d \<and> templateFits C d b \<longrightarrow>
           (\<exists>k. (\<forall>i<k. visualVerdict C d b t (Suc i) = Continue)
               \<and> visualVerdict C d b t (Suc k) \<noteq> Continue
               \<and> matchingResults d' = searchCandidate C d b (Suc k))))
   \<and> (\<forall>d'. match_text C d b ident = Some d' \<longrightarrow>
      trace d' = trace d @ newEvents d d' \<and> outcomes (newEvents d d') = [detectionResult d']
      \<and> detectionResult d' =
          (if roiValid C d \<and> templateFits C d b \<and> sublist ident (frameText C d b)
           then candidateOutcome C d (matchingResults d') True
           else notFound)
      \<and> (roiValid C d \<and> templateFits C d b \<longrightarrow>
           (\<exists>k. textStops C d b ident k
               \<and> matchingResults d' = searchCandidate C d b (Suc k))))
   \<and> (match_threshold C d b t \<noteq> None \<longleftrightarrow>
        \<not> roiValid C d \<or> \<not> templateFits C d b
        \<or> (\<exists>k. visualVerdict C d b t (Suc k) \<noteq> Continue))
   \<and> (match_text C d b ident \<noteq> None \<longleftrightarrow>
        \<not> roiValid C d \<or> \<not> templateFits C d b \<or> (\<exists>k. textStops C d b ident k))"
  using match_threshold_outcome [of C d b t] match_text_outcome [of C d b ident]
    match_threshold_returns_iff [of C d b t] match_text_returns_iff [of C d b ident]
  by (intro conjI allI impI) blast+

lemma searchFlags_Suc:
  "searchFlags C d b (Suc k) = searchFlags C d b k @ [searchInBounds C d b (Suc k)]"
  by (simp add: searchFlags_def)

lemma textEnd_extractions:
  "count_list (newEvents d (textEnd C d b ident k)) LocateNextMinMax = Suc k"
  by (simp add: textEnd_fields newEvents_append count_list_append text_events_extractions
      searchFlags_def del: text_events.simps)

lemma match_text_ocr:
  assumes "match_text C d b ident = Some d'"
  shows "ocrImages (newEvents d d') =
           replicate
             (count_list (searchFlags C d b (count_list (newEvents d d') LocateNextMinMax)) True)
             (fullSizeColor (screenImage (prepared C d b)))"
proof (cases "roiValid C d \<and> templateFits C d b")
  case False
  with assms match_text_rejected [OF False, of ident]
  have "d' = clearResults d \<or> d' = clearResults (cropped C d b)"
    by (auto split: if_splits)
  then show ?thesis
    by (auto simp add: invalid_end too_large_end ocrImages_simps searchFlags_def)
next
  case True
  with assms text_returned [of C d b ident d'] obtain k where
    k: "textStops C d b ident k" "d' = textEnd C d b ident k"
    by blast
  then have "searchInBounds C d b (Suc k)" by (simp add: textStops_def)
  with k(2) show ?thesis
    by (simp add: textEnd_ocrImages textEnd_extractions searchFlags_Suc count_list_append
        del: replicate_Suc)
qed

text \<open>
  C3, as amended. In a text-mode call that returns, the OCR engine is handed one image for
  each in-bounds candidate extracted, and every time it is the screen's whole full-size colour
  frame, not the region of the candidate. The call reports found exactly when both validity
  checks pass and the target is a literal, case-sensitive substring of the text read in that
  frame.
\<close>

theorem text_ocr_reads_whole_frame:
  assumes "match_text C d b ident = Some d'"
  shows "ocrImages (newEvents d d') =
           replicate
             (count_list (searchFlags C d b (count_list (newEvents d d') LocateNextMinMax)) True)
             (fullSizeColor (screenImage (prepared C d b)))
       \<and> (isDetected (detectionResult d') \<longleftrightarrow>
            roiValid C d \<and> templateFits C d b
            \<and> sublist ident (getUTF8Text C (fullSizeColor (screenImage (prepared C d b)))))"
proof -
  from match_text_outcome [OF assms]
  have "isDetected (detectionResult d') \<longleftrightarrow>
          roiValid C d \<and> templateFits C d b \<and> sublist ident (frameText C d b)"
    by (simp add: candidateOutcome_def notFound_def split: if_splits)
  with match_text_ocr [OF assms] show ?thesis
    by (simp add: frameText_def)
qed

text \<open>
  C8. In text mode, with both validity checks passed, let candidate \<open>k + 1\<close> be the first
  in-bounds candidate. If the text read for it contains the target as a literal substring,
  the call returns found = true on that candidate, after \<open>k + 1\<close> extractions and one OCR
  extraction; if it does not, no return of the call reports a found outcome. Nothing is
  assumed about the scores: they decide neither case.
\<close>

theorem text_found_on_first_in_bounds:
  assumes "roiValid C d" and "templateFits C d b"
    and "\<forall>i<k. \<not> searchInBounds C d b (Suc i)" and "searchInBounds C d b (Suc k)"
  shows "(sublist ident (frameText C d b) \<longrightarrow>
           (\<exists>d'. match_text C d b ident = Some d'
              \<and> detectionResult d' = candidateOutcome C d (searchCandidate C d b (Suc k)) True
              \<and> ocrImages (newEvents d d') = [fullSizeColor (screenImage (prepared C d b))]
              \<and> count_list (newEvents d d') LocateNextMinMax = Suc k))
       \<and> (\<not> sublist ident (frameText C d b) \<longrightarrow>
           (\<forall>d'. match_text C d b ident = Some d' \<longrightarrow> detectionResult d' = notFound))"
proof (intro conjI impI allI)
  assume found: "sublist ident (frameText C d b)"
  with assms(3,4) have "textStops C d b ident k"
    by (simp add: textStops_def string_find_Some count_flags_none)
  with assms(1,2) have "match_text C d b ident = Some (textEnd C d b ident k)"
    by (rule text_returns)
  moreover from assms(3) have "count_list (searchFlags C d b k) True = 0"
    by (simp add: count_flags_none)
  ultimately show "\<exists>d'. match_text C d b ident = Some d'
              \<and> detectionResult d' = candidateOutcome C d (searchCandidate C d b (Suc k)) True
              \<and> ocrImages (newEvents d d') = [fullSizeColor (screenImage (prepared C d b))]
              \<and> count_list (newEvents d d') LocateNextMinMax = Suc k"
    using found
    by (simp add: textEnd_fields(1) textEnd_ocrImages textEnd_extractions string_find_Some)
next
  fix d'
  assume "\<not> sublist ident (frameText C d b)" and "match_text C d b ident = Some d'"
  with match_text_outcome [of C d b ident d'] show "detectionResult d' = notFound"
    by simp
qed

text \<open>
  C5, as amended. In text mode, with both validity checks passed and a target that the text
  read never contains, every return of the call comes after exactly 100 OCR extractions and
  with the outcome cleared to the not-found value, written once. The call returns exactly
  when a hundredth in-bounds candidate is extracted: there is no return with fewer attempts,
  and no return at all when the search never reaches such a candidate.
\<close>

theorem text_cap_hundred_attempts:
  assumes "roiValid C d" and "templateFits C d b"
    and "\<not> sublist ident (frameText C d b)"
  shows "(\<forall>d'. match_text C d b ident = Some d' \<longrightarrow>
            length (ocrImages (newEvents d d')) = 100
            \<and> detectionResult d' = notFound \<and> outcomes (newEvents d d') = [notFound])
       \<and> (match_text C d b ident \<noteq> None \<longleftrightarrow>
            (\<exists>k. searchInBounds C d b (Suc k) \<and> count_list (searchFlags C d b k) True = 99))"
proof (intro conjI allI impI)
  fix d'
  assume ret: "match_text C d b ident = Some d'"
  with assms(1,2) text_returned [of C d b ident d'] obtain k where
    k: "textStops C d b ident k" "d' = textEnd C d b ident k"
    by blast
  with assms(3) have "count_list (searchFlags C d b k) True = 99"
    by (simp add: textStops_def string_find_Some)
  then have c: "count_list (searchFlags C d b k) True = 99" .
  have "length (ocrImages (newEvents d (textEnd C d b ident k)))
          = Suc (count_list (searchFlags C d b k) True)"
    by (simp only: textEnd_ocrImages length_replicate)
  with c k(2) show "length (ocrImages (newEvents d d')) = 100"
    by simp
  from match_text_outcome [OF ret] assms(3)
  show "detectionResult d' = notFound" by simp
  with match_text_outcome [OF ret]
  show "outcomes (newEvents d d') = [notFound]" by simp
next
  from assms(3) have "textStops C d b ident k \<longleftrightarrow>
      searchInBounds C d b (Suc k) \<and> count_list (searchFlags C d b k) True = 99" for k
    by (simp add: textStops_def string_find_Some)
  with assms(1,2) match_text_returns_iff [of C d b ident]
  show "match_text C d b ident \<noteq> None \<longleftrightarrow>
            (\<exists>k. searchInBounds C d b (Suc k) \<and> count_list (searchFlags C d b k) True = 99)"
    by simp
qed

section \<open>The properties on concrete calls\<close>

lemma floors:
  "dbl (3 / 5) = 5404319552844595 / 9007199254740992"
  "dbl (7 / 10) = 3152519739159347 / 4503599627370496"
  by (simp_all add: dbl_eval)

lemma half_valid: "roiValid halfC halfD \<and> templateFits halfC halfD lowTemplate"
  by (simp add: low_defs ref_defs search_defs)

lemma half_first:
  "searchCandidate halfC halfD lowTemplate (Suc 0) =
     \<lparr>roi = \<lparr>fullSize = lowRect, scaled = lowRect\<rparr>, maxVal = 1 / 2, results = []\<rparr>"
  by (simp add: low_defs ref_defs search_defs)

lemma half_verdict: "visualVerdict halfC halfD lowTemplate 40 (Suc 0) = Break False"
  by (simp add: low_defs ref_defs search_defs floors)

lemma half_call:
  "match_threshold halfC halfD lowTemplate 40 = Some (visualEnd halfC halfD lowTemplate 40 (Suc 0))"
proof -
  have "\<forall>i<0. visualVerdict halfC halfD lowTemplate 40 (Suc i) = Continue" by simp
  moreover have "visualVerdict halfC halfD lowTemplate 40 (Suc 0) \<noteq> Continue"
    using half_verdict by simp
  ultimately show ?thesis
    using half_valid by (intro visual_returns) simp_all
qed

lemma half_centre:
  "rx (fullSize (detectionRoi halfD)) + fullSizeCenterX halfC \<lparr>fullSize = lowRect, scaled = lowRect\<rparr> = 1"
  "ry (fullSize (detectionRoi halfD)) + fullSizeCenterY halfC \<lparr>fullSize = lowRect, scaled = lowRect\<rparr> = 0"
  by (simp_all add: low_defs ref_defs)

lemma stray_valid: "roiValid strayC halfD \<and> templateFits strayC halfD lowTemplate"
  by (simp add: strayC_def low_defs ref_defs search_defs)

lemma stray_candidates:
  "roi (candidate strayC ci r m (Suc k)) =
     \<lparr>fullSize = lowRect\<lparr>rx := 5\<rparr>, scaled = lowRect\<lparr>rx := 5\<rparr>\<rparr>"
proof (induction k arbitrary: m)
  case 0
  then show ?case by (simp add: nextCandidate_def strayC_def)
next
  case (Suc k)
  from Suc [of "nextCandidate strayC ci r m"] show ?case by simp
qed

lemma stray_out: "\<not> searchInBounds strayC halfD lowTemplate (Suc k)"
  by (simp only: searchInBounds_def searchCandidate_def inBounds_def stray_candidates)
     (simp add: strayC_def low_defs ref_defs search_defs)

lemma stray_visual: "match_threshold strayC halfD lowTemplate t = None"
proof -
  have "visualVerdict strayC halfD lowTemplate t (Suc k) = Continue" for k
    using stray_out [of k]
    by (simp add: visualVerdict_def visual_body_def searchInBounds_def inBounds_def)
  with match_threshold_returns_iff [of strayC halfD lowTemplate t] stray_valid
  show ?thesis by simp
qed

lemma stray_text: "match_text strayC halfD lowTemplate ident = None"
proof -
  have "\<not> textStops strayC halfD lowTemplate ident k" for k
    using stray_out [of k] by (simp add: textStops_def)
  with match_text_returns_iff [of strayC halfD lowTemplate ident] stray_valid
  show ?thesis by simp
qed

text \<open>
  Against C2 as stated: at threshold 40 the only candidate, of score 0.5, cannot clear the
  floor of 0.6, and the call ends with found = false next to the centre (1, 0) and the score
  0.5 of that candidate, not with the cleared value. The last call it makes is
  \<^verbatim>\<open>setResults\<close> with these values, not \<^verbatim>\<open>clearResults\<close>. And with a
  correlation engine whose maxima all lie outside the frame the loop of lines 113 to 134 goes
  on extracting: the call does not return, and no outcome is produced.
\<close>

theorem floor_failure_keeps_candidate_values:
  "map_option detectionResult (match_threshold halfC halfD lowTemplate 40) =
     Some \<lparr>isDetected = False, centerX = 1, centerY = 0, confidence = 1 / 2\<rparr>
   \<and> map_option (\<lambda>d'. last (newEvents halfD d')) (match_threshold halfC halfD lowTemplate 40) =
       Some (SetResults False 1 0 (1 / 2))
   \<and> match_threshold strayC halfD lowTemplate 40 = None"
  by (simp add: half_call visualEnd_fields(1) visualEnd_newEvents half_verdict
      candidateOutcome_def half_first half_centre stray_visual)

text \<open>The same call, as an instance of the amended C2.\<close>

theorem outcome_written_once_witness:
  "match_threshold halfC halfD lowTemplate 40 = Some (visualEnd halfC halfD lowTemplate 40 (Suc 0))
   \<and> outcomes (newEvents halfD (visualEnd halfC halfD lowTemplate 40 (Suc 0)))
       = [detectionResult (visualEnd halfC halfD lowTemplate 40 (Suc 0))]
   \<and> detectionResult (visualEnd halfC halfD lowTemplate 40 (Suc 0))
       = candidateOutcome halfC halfD
           (matchingResults (visualEnd halfC halfD lowTemplate 40 (Suc 0))) False"
proof -
  have "\<not> isResultAboveThreshold (matchingResults (visualEnd halfC halfD lowTemplate 40 (Suc 0))) 40"
    by (simp add: visualEnd_fields(2) half_first isResultAboveThreshold_def floors)
  with outcome_written_once [of halfC halfD lowTemplate 40 "[]"] half_call half_valid
  show ?thesis by simp
qed

lemma skip_valid: "roiValid skipC halfD \<and> templateFits skipC halfD lowTemplate"
  by (simp add: low_defs ref_defs search_defs)

lemma skip_first: "\<not> searchInBounds skipC halfD lowTemplate (Suc 0)"
  by (simp add: low_defs ref_defs search_defs)

lemma skip_second:
  "searchCandidate skipC halfD lowTemplate (Suc (Suc 0)) =
     \<lparr>roi = \<lparr>fullSize = lowRect, scaled = lowRect\<rparr>, maxVal = 1 / 2, results = []\<rparr>"
  by (simp add: low_defs ref_defs search_defs)

lemma skip_second_in: "searchInBounds skipC halfD lowTemplate (Suc (Suc 0))"
  by (simp add: low_defs ref_defs search_defs)

text \<open>
  An instance of C4: the first candidate is out of bounds and dropped, the second one is in
  bounds and below the floor, and the call ends not found after two extractions.
\<close>

theorem visual_search_skips_and_stops_witness:
  "roiValid skipC halfD \<and> templateFits skipC halfD lowTemplate
   \<and> \<not> searchInBounds skipC halfD lowTemplate (Suc 0)
   \<and> searchInBounds skipC halfD lowTemplate (Suc (Suc 0))
   \<and> \<not> isResultAboveThreshold (searchCandidate skipC halfD lowTemplate (Suc (Suc 0))) 40
   \<and> (\<exists>d'. match_threshold skipC halfD lowTemplate 40 = Some d'
          \<and> \<not> isDetected (detectionResult d')
          \<and> matchingResults d' = searchCandidate skipC halfD lowTemplate (Suc (Suc 0))
          \<and> count_list (newEvents halfD d') LocateNextMinMax = Suc (Suc 0))"
proof -
  have below: "\<not> isResultAboveThreshold (searchCandidate skipC halfD lowTemplate (Suc (Suc 0))) 40"
    by (simp add: skip_second isResultAboveThreshold_def floors)
  have "\<forall>i<Suc 0. \<not> searchInBounds skipC halfD lowTemplate (Suc i)"
    using skip_first by simp
  with visual_search_skips_and_stops
         [where C = skipC and d = halfD and b = lowTemplate and k = "Suc 0" and t = 40]
    skip_valid skip_second_in below
  have "\<exists>d'. match_threshold skipC halfD lowTemplate 40 = Some d'
          \<and> \<not> isDetected (detectionResult d')
          \<and> matchingResults d' = searchCandidate skipC halfD lowTemplate (Suc (Suc 0))
          \<and> count_list (newEvents halfD d') LocateNextMinMax = Suc (Suc 0)"
    by blast
  with skip_valid skip_first skip_second_in below show ?thesis by blast
qed

lemma strip_valid: "roiValid stripC stripD \<and> templateFits stripC stripD stripTemplate"
  by (simp add: stripC_def stripD_def stripTemplate_def ref_defs search_defs)

lemma strip_first:
  "searchCandidate stripC stripD stripTemplate (Suc 0) =
     \<lparr>roi = \<lparr>fullSize = \<lparr>rx = 0, ry = 0, rwidth = 2, rheight = 1\<rparr>,
             scaled = \<lparr>rx = 0, ry = 0, rwidth = 2, rheight = 1\<rparr>\<rparr>,
      maxVal = 1,
      results = [(\<lparr>rx = 2, ry = 0, rwidth = 2, rheight = 1\<rparr>, 0),
                 (\<lparr>rx = 4, ry = 0, rwidth = 2, rheight = 1\<rparr>, 0)]\<rparr>"
  by (simp add: stripC_def stripD_def stripTemplate_def ref_defs search_defs)

lemma strip_first_in: "searchInBounds stripC stripD stripTemplate (Suc 0)"
  by (simp add: stripC_def stripD_def stripTemplate_def ref_defs search_defs)

lemma strip_views:
  "croppedFullSizeColor (screenImage (prepared stripC stripD stripTemplate))
     = [[white, black, black, black, black, black]]"
  "fullSizeColor (conditionImage (prepared stripC stripD stripTemplate)) = stripTemplate"
  "fullSizeColor (screenImage stripD) = [[white, black, black, black, black, black]]"
  by (simp_all add: stripC_def stripD_def stripTemplate_def ref_defs search_defs)

lemma strip_region:
  "cropMat [[white, black, black, black, black, black]]
     \<lparr>rx = 0, ry = 0, rwidth = 2, rheight = 1\<rparr> = stripTemplate"
  by (simp add: cropMat_def stripTemplate_def)

lemma strip_means:
  "mean stripC [[white, black, black, black, black, black]] i = (if i < 3 then 85 / 2 else 0)"
  "mean stripC stripTemplate i = (if i < 3 then 255 / 2 else 0)"
  by (simp_all add: stripC_def refCollaborators_def refMean_def stripTemplate_def white_def
      black_def dbl_eval)

lemma strip_distance:
  "getColorDiff stripC [[white, black, black, black, black, black]] stripTemplate = dbl (100 / 3)"
  by (simp add: getColorDiff_eq strip_means) (simp add: dbl_eval)

lemma strip_above: "30 \<le> dbl (100 / 3)"
  by (simp add: dbl_eval)

lemma strip_same: "getColorDiff stripC stripTemplate stripTemplate = 0"
  by (rule getColorDiff_self)

lemma strip_verdicts:
  "visualVerdict stripC stripD stripTemplate 30 (Suc 0) = Continue"
  "visualVerdict stripC stripD stripTemplate 30 (Suc (Suc 0)) = Break False"
  using strip_above
  by (simp_all add: visualVerdict_def visual_body_def strip_views strip_distance
      isResultAboveThreshold_def floors)
     (simp_all add: stripC_def stripD_def stripTemplate_def ref_defs search_defs floors)

lemma strip_call:
  "match_threshold stripC stripD stripTemplate 30 =
     Some (visualEnd stripC stripD stripTemplate 30 (Suc (Suc 0)))"
proof -
  have "\<forall>i<Suc 0. visualVerdict stripC stripD stripTemplate 30 (Suc i) = Continue"
    using strip_verdicts(1) by simp
  moreover have "visualVerdict stripC stripD stripTemplate 30 (Suc (Suc 0)) \<noteq> Continue"
    using strip_verdicts(2) by simp
  ultimately show ?thesis
    using strip_valid by (intro visual_returns) simp_all
qed

lemma strip_entry:
  "detectCondition_threshold stripC (freshDetector [[white, black, black, black, black, black]])
     stripTemplate 30 = match_threshold stripC stripD stripTemplate 30"
proof -
  have "(freshDetector [[white, black, black, black, black, black]])
          \<lparr>detectionRoi :=
             setFullSize stripC
               (fullSizeRoi (screenImage (freshDetector [[white, black, black, black, black, black]])))
               (scaleRatio (freshDetector [[white, black, black, black, black, black]]))\<rparr>
        = stripD"
    by (simp add: stripC_def stripD_def ref_defs)
  then show ?thesis
    by (simp only: detectCondition_threshold_def)
qed

text \<open>
  C1. The claim has a candidate accepted when its score clears the floor and the colour
  distance between the region of the candidate and the template is below the threshold. In
  the whole-frame call below, at threshold 30, the first candidate is the occurrence of the
  template: it is in bounds, its score is 1 and its region is equal to the template, at
  distance 0. The distance the code computes is that of the whole cropped detection area,
  100 / 3 rounded, so the candidate is passed over and the call ends not found.
\<close>

theorem colour_check_ignores_candidate_region:
  "searchInBounds stripC stripD stripTemplate (Suc 0)
   \<and> maxVal (searchCandidate stripC stripD stripTemplate (Suc 0)) = 1
   \<and> cropMat (fullSizeColor (screenImage stripD))
         (fullSize (roi (searchCandidate stripC stripD stripTemplate (Suc 0)))) = stripTemplate
   \<and> getColorDiff stripC stripTemplate stripTemplate = 0
   \<and> getColorDiff stripC
         (croppedFullSizeColor (screenImage (prepared stripC stripD stripTemplate)))
         stripTemplate = dbl (100 / 3)
   \<and> 30 \<le> dbl (100 / 3)
   \<and> visualVerdict stripC stripD stripTemplate 30 (Suc 0) = Continue
   \<and> map_option (\<lambda>d'. isDetected (detectionResult d'))
        (detectCondition_threshold stripC
           (freshDetector [[white, black, black, black, black, black]]) stripTemplate 30)
       = Some False"
  by (simp add: strip_first_in strip_first strip_views strip_region strip_distance strip_above
      strip_same strip_verdicts strip_entry strip_call visualEnd_fields(1) candidateOutcome_def)

lemma text_valid: "roiValid textC textD \<and> templateFits textC textD [[white]]"
  by (simp add: textC_def textD_def ref_defs search_defs)

lemma text_first: "\<not> searchInBounds textC textD [[white]] (Suc 0)"
  by (simp add: textC_def textD_def ref_defs search_defs)

lemma text_second:
  "searchCandidate textC textD [[white]] (Suc (Suc 0)) =
     \<lparr>roi = \<lparr>fullSize = unitRect 0, scaled = unitRect 0\<rparr>, maxVal = 0, results = []\<rparr>"
  by (simp add: textC_def textD_def ref_defs search_defs)

lemma text_second_in: "searchInBounds textC textD [[white]] (Suc (Suc 0))"
  by (simp add: textC_def textD_def ref_defs search_defs)

lemma text_frame: "fullSizeColor (screenImage (prepared textC textD [[white]])) = textFrame"
  by (simp add: textC_def textD_def ref_defs search_defs)

lemma text_read: "frameText textC textD [[white]] = ''LOGIN''"
  by (simp add: frameText_def text_frame) (simp add: textC_def refCollaborators_def frameReader_def)

lemma login_contains_log: "sublist ''LOG'' ''LOGIN''"
  by (simp add: sublist_Cons_right)

lemma login_lacks_logx: "\<not> sublist ''LOGX'' ''LOGIN''"
  by (simp add: sublist_Cons_right)

lemma text_stops_found: "textStops textC textD [[white]] ''LOG'' (Suc 0)"
  using text_first
  by (simp add: textStops_def text_second_in text_read string_find_Some login_contains_log
      searchFlags_def)

lemma text_found_call:
  "match_text textC textD [[white]] ''LOG'' = Some (textEnd textC textD [[white]] ''LOG'' (Suc 0))"
  using text_valid text_stops_found by (intro text_returns) simp_all

text \<open>
  Against C3 as stated: the region of the in-bounds candidate is the white pixel alone, in
  which the OCR engine reads no \<open>LOG\<close>; the call hands the whole frame of two pixels to the
  engine and reports found.
\<close>

theorem text_ocr_reads_frame_not_candidate:
  "map_option (\<lambda>d'. (isDetected (detectionResult d'), ocrImages (newEvents textD d')))
     (match_text textC textD [[white]] ''LOG'') = Some (True, [[[white, black]]])
   \<and> cropMat (fullSizeColor (screenImage textD))
       (fullSize (roi (searchCandidate textC textD [[white]] (Suc (Suc 0))))) = [[white]]
   \<and> \<not> sublist ''LOG'' (getUTF8Text textC [[white]])"
proof -
  have "isDetected (detectionResult (textEnd textC textD [[white]] ''LOG'' (Suc 0)))"
    by (simp add: textEnd_fields(1) text_read string_find_Some login_contains_log
        candidateOutcome_def)
  moreover have "ocrImages (newEvents textD (textEnd textC textD [[white]] ''LOG'' (Suc 0)))
      = [[[white, black]]]"
    using text_first by (simp add: textEnd_ocrImages searchFlags_def text_frame textFrame_def)
  moreover have "cropMat (fullSizeColor (screenImage textD))
       (fullSize (roi (searchCandidate textC textD [[white]] (Suc (Suc 0))))) = [[white]]"
    by (simp add: text_second) (simp add: textD_def ref_defs)
  moreover have "\<not> sublist ''LOG'' (getUTF8Text textC [[white]])"
    by (simp add: textC_def refCollaborators_def frameReader_def textFrame_def)
  ultimately show ?thesis by (simp add: text_found_call)
qed

text \<open>The same call, as an instance of the amended C3.\<close>

theorem text_ocr_reads_whole_frame_witness:
  "match_text textC textD [[white]] ''LOG'' = Some (textEnd textC textD [[white]] ''LOG'' (Suc 0))
   \<and> ocrImages (newEvents textD (textEnd textC textD [[white]] ''LOG'' (Suc 0))) = [textFrame]
   \<and> isDetected (detectionResult (textEnd textC textD [[white]] ''LOG'' (Suc 0)))"
proof -
  have n: "count_list (newEvents textD (textEnd textC textD [[white]] ''LOG'' (Suc 0)))
             LocateNextMinMax = Suc (Suc 0)"
    by (rule textEnd_extractions)
  have f: "count_list (searchFlags textC textD [[white]] (Suc (Suc 0))) True = Suc 0"
    using text_first text_second_in by (simp add: searchFlags_def)
  from text_ocr_reads_whole_frame [OF text_found_call] n f text_valid text_read
    login_contains_log
  show ?thesis
    by (simp add: text_found_call text_frame frameText_def)
qed

text \<open>
  The same call, as an instance of C8: found on the second candidate, the first in bounds,
  whose score is 0.
\<close>

theorem text_found_on_first_in_bounds_witness:
  "roiValid textC textD \<and> templateFits textC textD [[white]]
   \<and> \<not> searchInBounds textC textD [[white]] (Suc 0)
   \<and> searchInBounds textC textD [[white]] (Suc (Suc 0))
   \<and> sublist ''LOG'' (frameText textC textD [[white]])
   \<and> maxVal (searchCandidate textC textD [[white]] (Suc (Suc 0))) = 0
   \<and> (\<exists>d'. match_text textC textD [[white]] ''LOG'' = Some d'
         \<and> detectionResult d' =
             candidateOutcome textC textD (searchCandidate textC textD [[white]] (Suc (Suc 0))) True
         \<and> ocrImages (newEvents textD d') = [fullSizeColor (screenImage (prepared textC textD [[white]]))]
         \<and> count_list (newEvents textD d') LocateNextMinMax = Suc (Suc 0))"
proof -
  have valid: "roiValid textC textD" "templateFits textC textD [[white]]"
    using text_valid by simp_all
  have skip: "\<forall>i<Suc 0. \<not> searchInBounds textC textD [[white]] (Suc i)"
    using text_first by simp
  have found: "sublist ''LOG'' (frameText textC textD [[white]])"
    by (simp add: text_read login_contains_log)
  from text_found_on_first_in_bounds [OF valid skip text_second_in, of "''LOG''"] found
  have "\<exists>d'. match_text textC textD [[white]] ''LOG'' = Some d'
         \<and> detectionResult d' =
             candidateOutcome textC textD (searchCandidate textC textD [[white]] (Suc (Suc 0))) True
         \<and> ocrImages (newEvents textD d') = [fullSizeColor (screenImage (prepared textC textD [[white]]))]
         \<and> count_list (newEvents textD d') LocateNextMinMax = Suc (Suc 0)"
    by blast
  moreover have "maxVal (searchCandidate textC textD [[white]] (Suc (Suc 0))) = 0"
    by (simp add: text_second)
  ultimately show ?thesis
    using valid text_first text_second_in found by blast
qed

lemma ref_exhausted:
  "results m = [] \<Longrightarrow>
     candidate (refCollaborators sc ocr) ci r m (Suc i) = refLocateNextMinMax m (scaledGray ci) r"
proof (induction i arbitrary: m)
  case 0
  then show ?case by (simp add: nextCandidate_def refCollaborators_def)
next
  case (Suc i)
  let ?m = "nextCandidate (refCollaborators sc ocr) ci r m"
  from Suc.prems have e: "results ?m = []"
    by (simp add: nextCandidate_def refCollaborators_def refLocateNextMinMax_def Let_def)
  have "candidate (refCollaborators sc ocr) ci r m (Suc (Suc i))
          = candidate (refCollaborators sc ocr) ci r ?m (Suc i)"
    by simp
  also have "\<dots> = refLocateNextMinMax ?m (scaledGray ci) r"
    by (rule Suc.IH [OF e])
  also have "\<dots> = refLocateNextMinMax m (scaledGray ci) r"
    using Suc.prems e by (simp add: refLocateNextMinMax_def)
  finally show ?case .
qed

lemma text_later:
  "searchCandidate textC textD [[white]] (Suc (Suc (Suc i))) =
     \<lparr>roi = \<lparr>fullSize = unitRect 0, scaled = unitRect 0\<rparr>, maxVal = - 1, results = []\<rparr>"
proof -
  let ?P = "prepared textC textD [[white]]"
  let ?m = "nextCandidate textC (conditionImage ?P) (scaleRatio textD)
              (nextCandidate textC (conditionImage ?P) (scaleRatio textD) (matchingResults ?P))"
  have e: "results ?m = []"
    by (simp add: textC_def textD_def ref_defs search_defs)
  have "searchCandidate textC textD [[white]] (Suc (Suc (Suc i)))
          = candidate textC (conditionImage ?P) (scaleRatio textD) ?m (Suc i)"
    by (simp add: searchCandidate_def)
  also have "\<dots> = refLocateNextMinMax ?m (scaledGray (conditionImage ?P)) (scaleRatio textD)"
    unfolding textC_def by (rule ref_exhausted) (use e in \<open>simp add: textC_def\<close>)
  also have "\<dots> = \<lparr>roi = \<lparr>fullSize = unitRect 0, scaled = unitRect 0\<rparr>, maxVal = - 1, results = []\<rparr>"
    using e by (simp add: refLocateNextMinMax_def)
      (simp add: textC_def textD_def ref_defs search_defs)
  finally show ?thesis .
qed

lemma text_later_in: "searchInBounds textC textD [[white]] (Suc (Suc i))"
proof (cases i)
  case 0
  then show ?thesis by (simp add: text_second_in)
next
  case (Suc j)
  have "isScaledContains textC (screenImage (prepared textC textD [[white]])) (unitRect 0)"
    by (simp add: textC_def textD_def ref_defs search_defs)
  with Suc show ?thesis
    by (simp add: searchInBounds_def inBounds_def text_later)
qed

lemma text_flags: "searchFlags textC textD [[white]] (Suc n) = False # replicate n True"
proof (induction n)
  case 0
  then show ?case using text_first by (simp add: searchFlags_def)
next
  case (Suc n)
  have "searchFlags textC textD [[white]] (Suc (Suc n))
          = searchFlags textC textD [[white]] (Suc n) @ [searchInBounds textC textD [[white]] (Suc (Suc n))]"
    by (rule searchFlags_Suc)
  with Suc text_later_in [of n] show ?case
    by (simp add: replicate_append_same)
qed

lemma text_stops_cap: "textStops textC textD [[white]] ''LOGX'' (Suc 99)"
proof -
  have "count_list (searchFlags textC textD [[white]] (Suc 99)) True = 99"
    by (simp only: text_flags) (simp add: count_list_replicate_same)
  with text_later_in [of 99] show ?thesis
    by (simp add: textStops_def text_read string_find_Some login_lacks_logx)
qed

lemma text_surface:
  "results (matchingResults (prepared textC textD [[white]])) = [(unitRect 5, 7 / 8), (unitRect 0, 0)]"
  by (simp add: textC_def textD_def ref_defs search_defs)

lemma text_cap_call:
  "match_text textC textD [[white]] ''LOGX'' = Some (textEnd textC textD [[white]] ''LOGX'' (Suc 99))"
  using text_valid text_stops_cap by (intro text_returns) simp_all

lemma text_cap_counts:
  "length (ocrImages (newEvents textD (textEnd textC textD [[white]] ''LOGX'' (Suc 99)))) = Suc 99"
  "count_list (newEvents textD (textEnd textC textD [[white]] ''LOGX'' (Suc 99))) LocateNextMinMax
     = Suc (Suc 99)"
proof -
  have "count_list (searchFlags textC textD [[white]] (Suc 99)) True = 99"
    by (simp only: text_flags) (simp add: count_list_replicate_same)
  then show "length (ocrImages (newEvents textD (textEnd textC textD [[white]] ''LOGX'' (Suc 99))))
      = Suc 99"
    by (simp only: textEnd_ocrImages length_replicate)
  show "count_list (newEvents textD (textEnd textC textD [[white]] ''LOGX'' (Suc 99))) LocateNextMinMax
     = Suc (Suc 99)"
    by (simp only: textEnd_extractions)
qed

lemma text_cap_pair:
  "map_option
     (\<lambda>d'. (length (ocrImages (newEvents textD d')),
            count_list (newEvents textD d') LocateNextMinMax))
     (match_text textC textD [[white]] ''LOGX'') = Some (100, 101)"
  unfolding text_cap_call option.map text_cap_counts by simp

text \<open>
  Against C5 as stated: the score matrix holds two maxima, one of them in bounds, and the
  target \<open>LOGX\<close> is never read. The candidates run out after two extractions, yet the call
  makes 101 extractions and 100 OCR extractions before it returns, not fewer. With the
  correlation engine whose maxima all lie outside the frame no OCR extraction is ever made,
  the cap is never reached and the call does not return.
\<close>

theorem text_cap_not_fewer_when_candidates_run_out:
  "length (results (matchingResults (prepared textC textD [[white]]))) = 2
   \<and> map_option
        (\<lambda>d'. (length (ocrImages (newEvents textD d')),
               count_list (newEvents textD d') LocateNextMinMax))
        (match_text textC textD [[white]] ''LOGX'') = Some (100, 101)
   \<and> match_text strayC halfD lowTemplate ''LOGX'' = None"
  by (simp add: text_surface text_cap_pair stray_text)

text \<open>
  The first of these calls, as an instance of the amended C5: candidate 101 is the hundredth
  in-bounds one, and the call returns there after 100 OCR extractions.
\<close>

theorem text_cap_hundred_attempts_witness:
  "roiValid textC textD \<and> templateFits textC textD [[white]]
   \<and> \<not> sublist ''LOGX'' (frameText textC textD [[white]])
   \<and> match_text textC textD [[white]] ''LOGX''
       = Some (textEnd textC textD [[white]] ''LOGX'' (Suc 99))
   \<and> length (ocrImages (newEvents textD (textEnd textC textD [[white]] ''LOGX'' (Suc 99)))) = 100
   \<and> detectionResult (textEnd textC textD [[white]] ''LOGX'' (Suc 99)) = notFound
   \<and> outcomes (newEvents textD (textEnd textC textD [[white]] ''LOGX'' (Suc 99))) = [notFound]"
proof -
  have valid: "roiValid textC textD" "templateFits textC textD [[white]]"
    using text_valid by simp_all
  have never: "\<not> sublist ''LOGX'' (frameText textC textD [[white]])"
    by (simp add: text_read login_lacks_logx)
  have call: "match_text textC textD [[white]] ''LOGX''
       = Some (textEnd textC textD [[white]] ''LOGX'' (Suc 99))"
    using valid text_stops_cap by (rule text_returns)
  from text_cap_hundred_attempts [OF valid never] call
  have "length (ocrImages (newEvents textD (textEnd textC textD [[white]] ''LOGX'' (Suc 99)))) = 100
   \<and> detectionResult (textEnd textC textD [[white]] ''LOGX'' (Suc 99)) = notFound
   \<and> outcomes (newEvents textD (textEnd textC textD [[white]] ''LOGX'' (Suc 99))) = [notFound]"
    by blast
  with valid never call show ?thesis by blast
qed

lemma five_exact:
  "colorDistance (\<lambda>i. channelMean i fiveFrame) (\<lambda>i. channelMean i [[black]]) = 52"
  by (simp add: colorDistance_def channelMean_def sum_lessThan_3 fiveFrame_def white_def
      black_def gray_def)

lemma row_exact:
  "colorDistance (\<lambda>i. channelMean i whiteRow) (\<lambda>i. channelMean i [[black]]) = 100"
  by (simp add: colorDistance_def channelMean_def sum_lessThan_3 whiteRow_def white_def
      black_def sum_list_replicate)

lemma half_mean: "mean halfC = refMean"
  by (simp add: halfC_def refCollaborators_def)

lemma five_means:
  "i < 3 \<Longrightarrow> refMean fiveFrame i = 4665447738979123 / 35184372088832"
  "refMean [[black]] i = 0"
  by (simp_all add: refMean_def fiveFrame_def white_def black_def gray_def dbl_eval)

lemma five_code: "getColorDiff halfC fiveFrame [[black]] = 52 - 1 / 2 ^ 47"
  by (simp add: getColorDiff_eq half_mean five_means) (simp add: dbl_eval)

lemma five_quot_means:
  "i < 3 \<Longrightarrow> quotMean fiveFrame i = 4665447738979123 / 35184372088832"
  "quotMean [[black]] i = 0"
  by (simp_all add: quotMean_def fiveFrame_def white_def black_def gray_def dbl_eval)

lemma five_quot_code:
  "getColorDiff (halfC\<lparr>mean := quotMean\<rparr>) fiveFrame [[black]] = 52 - 1 / 2 ^ 47"
  by (simp add: getColorDiff_eq five_quot_means) (simp add: dbl_eval)

lemma row_mean: "i < 3 \<Longrightarrow> refMean whiteRow i = 255 + 1 / 2 ^ 45"
  by (simp add: refMean_def whiteRow_def white_def sum_list_replicate dbl_eval)

lemma row_code: "getColorDiff halfC whiteRow [[black]] = 100 + 1 / 2 ^ 46"
  by (simp add: getColorDiff_eq half_mean row_mean five_means) (simp add: dbl_eval)

text \<open>
  Against C9 as stated. Five pixels whose channels have the mean 132.6, against a black
  pixel: the exact distance is 52, and with either way of computing the mean the code returns
  the double just below 52. And 75 white pixels against a black pixel, with the mean computed
  through the reciprocal: the exact distance is 100, the mean returned is
  \<open>255 + 1 / 2 ^ 45\<close> and the code returns a distance above 100.
\<close>

theorem getColorDiff_differs_from_exact_distance:
  "colorDistance (\<lambda>i. channelMean i fiveFrame) (\<lambda>i. channelMean i [[black]]) = 52
   \<and> getColorDiff halfC fiveFrame [[black]] = 52 - 1 / 2 ^ 47
   \<and> getColorDiff (halfC\<lparr>mean := quotMean\<rparr>) fiveFrame [[black]] = 52 - 1 / 2 ^ 47
   \<and> colorDistance (\<lambda>i. channelMean i whiteRow) (\<lambda>i. channelMean i [[black]]) = 100
   \<and> mean halfC whiteRow 0 = 255 + 1 / 2 ^ 45
   \<and> getColorDiff halfC whiteRow [[black]] = 100 + 1 / 2 ^ 46"
  by (simp add: five_exact row_exact five_code five_quot_code row_code half_mean row_mean)

text \<open>
  The first of these pairs of images, as an instance of the amended C9: the means returned
  lie between 0 and 255, and the distance is at most 100.
\<close>

theorem getColorDiff_channel_means_witness:
  "byteMeans (mean halfC fiveFrame) \<and> byteMeans (mean halfC [[black]])
   \<and> 0 \<le> getColorDiff halfC fiveFrame [[black]]
   \<and> getColorDiff halfC fiveFrame [[black]] \<le> 100
   \<and> getColorDiff halfC fiveFrame fiveFrame = 0"
proof -
  have "byteMeans (mean halfC fiveFrame)" "byteMeans (mean halfC [[black]])"
    by (simp_all add: byteMeans_def half_mean five_means upt_rec numeral_eq_Suc)
  with getColorDiff_channel_means [of halfC fiveFrame "[[black]]"]
    getColorDiff_channel_means [of halfC fiveFrame fiveFrame]
  show ?thesis by blast
qed

lemma small_roi_valid: "roiValid textC smallD"
  by (simp add: textC_def smallD_def ref_defs search_defs)

lemma small_too_large:
  "\<not> isCroppedScaledContains textC (setCropping textC (screenImage smallD) (detectionRoi smallD))
        (scaledSize (processBitmap textC bigTemplate (scaleRatio smallD)))"
  by (simp add: textC_def smallD_def bigTemplate_def ref_defs)

text \<open>An instance of C6: a template of 20 by 20 for a search area of 10 by 10.\<close>

theorem template_too_large_clears_outcome_witness:
  "roiValid textC smallD
   \<and> \<not> isCroppedScaledContains textC
         (setCropping textC (screenImage smallD) (detectionRoi smallD))
         (scaledSize (processBitmap textC bigTemplate (scaleRatio smallD)))
   \<and> (\<exists>d'. match_threshold textC smallD bigTemplate 90 = Some d'
          \<and> detectionResult d' = notFound \<and> outcomes (newEvents smallD d') = [notFound]
          \<and> MatchTemplate \<notin> set (newEvents smallD d')
          \<and> LocateNextMinMax \<notin> set (newEvents smallD d'))
   \<and> (\<exists>d'. match_text textC smallD bigTemplate ''LOG'' = Some d'
          \<and> detectionResult d' = notFound \<and> outcomes (newEvents smallD d') = [notFound]
          \<and> MatchTemplate \<notin> set (newEvents smallD d')
          \<and> LocateNextMinMax \<notin> set (newEvents smallD d')
          \<and> ocrImages (newEvents smallD d') = [])"
  using template_too_large_clears_outcome [OF small_too_large, of 90 "''LOG''"]
    small_roi_valid small_too_large
  by (simp only: simp_thms)

lemma outside_invalid:
  "\<not> isFullSizeContains textC (screenImage outsideD) (fullSize (detectionRoi outsideD))"
  by (simp add: textC_def outsideD_def ref_defs)

text \<open>An instance of C7: a region of interest of 5 by 5 on a frame of one pixel.\<close>

theorem invalid_roi_clears_outcome_witness:
  "\<not> isFullSizeContains textC (screenImage outsideD) (fullSize (detectionRoi outsideD))
   \<and> match_threshold textC outsideD [[white]] 90 = Some (clearResults outsideD)
   \<and> match_text textC outsideD [[white]] ''LOG'' = Some (clearResults outsideD)
   \<and> detectionResult (clearResults outsideD) = notFound
   \<and> newEvents outsideD (clearResults outsideD) = [ClearResults]
   \<and> conditionImage (clearResults outsideD) = conditionImage outsideD
   \<and> matchingResults (clearResults outsideD) = matchingResults outsideD"
proof -
  have "\<not> isFullSizeContains textC (screenImage outsideD) (fullSize (detectionRoi outsideD))
        \<or> \<not> isScaledContains textC (screenImage outsideD) (scaled (detectionRoi outsideD))"
    using outside_invalid by simp
  from invalid_roi_clears_outcome [OF this, of "[[white]]" 90 "''LOG''"] outside_invalid
  show ?thesis by (simp only: simp_thms)
qed

lemma idle_whole_frame:
  "idleD\<lparr>detectionRoi := setFullSize textC (fullSizeRoi (screenImage idleD)) (scaleRatio idleD)\<rparr>
     = textD"
  by (simp add: textD_def textC_def ref_defs)

lemma idle_rect:
  "idleD\<lparr>detectionRoi :=
      setFullSize textC \<lparr>rx = 0, ry = 0, rwidth = 2, rheight = 1\<rparr> (scaleRatio idleD)\<rparr> = textD"
  by (simp add: textD_def textC_def ref_defs)

lemma idle_fields: "conditionBitmap idleD = [[black, black, black]]" "trace idleD = trace textD"
  by (simp_all add: textD_def idleD_def)

lemma stale_too_large: "\<not> templateFits textC textD [[black, black, black]]"
  by (simp add: textC_def textD_def ref_defs search_defs)

text \<open>
  C10. The text-mode entry point without a rectangle is called with a white template of one
  pixel. It processes the bitmap of three pixels that \<open>conditionBitmap\<close> holds instead, finds
  it larger than the frame and clears the outcome. The entry point with a rectangle, called
  with the same template on the whole frame, processes the template and reports found.
\<close>

theorem detectCondition_text_ignores_template:
  "conditionBitmap idleD = [[black, black, black]]
   \<and> map_option (\<lambda>d'. (isDetected (detectionResult d'), newEvents idleD d'))
       (detectCondition_text textC idleD [[white]] ''LOG'')
       = Some (False, [ProcessBitmap [[black, black, black]], ClearResults])
   \<and> map_option (\<lambda>d'. (isDetected (detectionResult d'), hd (newEvents idleD d')))
       (detectCondition_rect_text textC idleD [[white]] 0 0 2 1 ''LOG'')
       = Some (True, ProcessBitmap [[white]])"
proof -
  have cb: "conditionBitmap textD = [[black, black, black]]"
    by (simp add: textD_def idleD_def)
  have "detectCondition_text textC idleD [[white]] ''LOG''
      = match_text textC textD (conditionBitmap textD) ''LOG''"
    by (simp add: detectCondition_text_def Let_def idle_whole_frame)
  with text_valid stale_too_large
  have whole: "detectCondition_text textC idleD [[white]] ''LOG''
      = Some (clearResults (cropped textC textD [[black, black, black]]))"
    by (simp add: cb match_text_too_large)
  have rect: "detectCondition_rect_text textC idleD [[white]] 0 0 2 1 ''LOG''
      = Some (textEnd textC textD [[white]] ''LOG'' (Suc 0))"
    by (simp only: detectCondition_rect_text_def idle_rect text_found_call)
  have ev: "newEvents idleD d' = newEvents textD d'" for d'
    by (simp add: newEvents_def idle_fields)
  have found: "isDetected (detectionResult (textEnd textC textD [[white]] ''LOG'' (Suc 0)))"
    by (simp add: textEnd_fields(1) text_read string_find_Some login_contains_log
        candidateOutcome_def)
  show ?thesis
    by (simp add: whole rect ev idle_fields too_large_end clearResults_fields notFound_def found
        textEnd_newEvents)
qed

end
